theory Spec2Isabelle
  imports Complex_Main "HOL-Library.Word"
begin

unbundle bit_operations_syntax

section \<open>OpenCL kernels of the state-vector engine\<close>

subsection \<open>Work items and the strided loop\<close>

text \<open>
  Every kernel of the engine has the shape
  \<^verbatim>\<open>for (lcv = ID; lcv < maxI; lcv += Nthreads) { body }\<close>
  where \<^verbatim>\<open>ID = get_global_id(0)\<close> and \<^verbatim>\<open>Nthreads = get_global_size(0)\<close>.
  \<open>work_item\<close> is that loop for one work item, started at \<open>lcv\<close>; the state \<open>'s\<close>
  is whatever buffer the body writes. A launch has at least one work item; with
  \<open>Nthreads = 0\<close> no work item exists and the loop is never entered.
\<close>

function work_item :: "nat \<Rightarrow> nat \<Rightarrow> nat \<Rightarrow> (nat \<Rightarrow> 's \<Rightarrow> 's) \<Rightarrow> 's \<Rightarrow> 's" where
  "work_item lcv Nthreads maxI body s =
     (if lcv < maxI \<and> 0 < Nthreads
      then work_item (lcv + Nthreads) Nthreads maxI body (body lcv s)
      else s)"
  by pat_completeness auto
termination
  by (relation "measure (\<lambda>(lcv, Nthreads, maxI, body, s). maxI - lcv)") auto

declare work_item.simps [simp del]

text \<open>
  \<^verbatim>\<open>enqueueNDRangeKernel\<close> with \<open>ngc\<close> global work items: every id below \<open>ngc\<close>
  runs the kernel once, with \<^verbatim>\<open>get_global_size(0) = ngc\<close>. The kernels modelled here write
  each index from exactly one work item, so the ids are run one after the other.
\<close>

definition enqueueNDRangeKernel :: "nat \<Rightarrow> (nat \<Rightarrow> nat \<Rightarrow> 's \<Rightarrow> 's) \<Rightarrow> 's \<Rightarrow> 's" where
  "enqueueNDRangeKernel ngc call s = fold (\<lambda>ID. call ID ngc) [0..<ngc] s"

subsection \<open>Complex arithmetic of the kernels\<close>

text \<open>
  \<^verbatim>\<open>cmplx\<close> is a vector of two \<^verbatim>\<open>real1\<close> components \<^verbatim>\<open>.x\<close> and \<^verbatim>\<open>.y\<close>. The scalar type is
  left open: the kernels below only move amplitudes and multiply them.
\<close>

type_synonym 'r cmplx = "'r \<times> 'r"

definition zmul :: "('r::{plus,minus,times}) cmplx \<Rightarrow> 'r cmplx \<Rightarrow> 'r cmplx" where
  "zmul lhs rhs =
     ((fst lhs * fst rhs) - (snd lhs * snd rhs), (fst lhs * snd rhs) + (snd lhs * fst rhs))"

subsection \<open>The compose kernel\<close>

text \<open>
  \<^verbatim>\<open>args = vload4(0, bitCapIntOclPtr)\<close>: \<open>args.x\<close> is the new maxQPower, \<open>args.y\<close> the
  qubit count of the first operand, \<open>args.z\<close> the start mask and \<open>args.w\<close> the end mask.
\<close>

definition compose :: "nat \<Rightarrow> nat \<Rightarrow> ('r::{plus,minus,times}) cmplx list \<Rightarrow> 'r cmplx list \<Rightarrow> nat list
    \<Rightarrow> 'r cmplx list \<Rightarrow> 'r cmplx list" where
  "compose ID Nthreads stateVec1 stateVec2 bitCapIntOclPtr nStateVec =
     (let args_x = bitCapIntOclPtr ! 0;
          args_y = bitCapIntOclPtr ! 1;
          args_z = bitCapIntOclPtr ! 2;
          args_w = bitCapIntOclPtr ! 3
      in work_item ID Nthreads args_x
           (\<lambda>lcv nStateVec.
              nStateVec[lcv := zmul (stateVec1 ! (lcv AND args_z))
                                    (stateVec2 ! (drop_bit args_y (lcv AND args_w)))])
           nStateVec)"

subsection \<open>The parity-rotation kernels\<close>

text \<open>
  The inner loop \<^verbatim>\<open>for (c = 0; perm; c++) perm &= perm - ONE_BCI;\<close> clears the lowest set
  bit of \<open>perm\<close> until none is left; \<open>c\<close> counts the rounds.
\<close>

function clear_lsb_loop :: "nat \<Rightarrow> nat \<Rightarrow> nat" where
  "clear_lsb_loop c perm =
     (if perm \<noteq> 0 then clear_lsb_loop (c + 1) (perm AND (perm - 1)) else c)"
  by pat_completeness auto
termination
proof (relation "measure (\<lambda>(c, perm). perm)")
  show "wf (measure (\<lambda>(c, perm). perm))" by simp
next
  fix c perm :: nat
  assume "perm \<noteq> 0"
  have "int perm AND int (perm - 1) \<le> int (perm - 1)"
    by (rule AND_upper2) simp
  then have "nat (int perm AND int (perm - 1)) \<le> perm - 1"
    by linarith
  then have "perm AND (perm - 1) \<le> perm - 1"
    by (simp only: and_nat_def)
  with \<open>perm \<noteq> 0\<close> show "((c + 1, perm AND (perm - 1)), (c, perm)) \<in> measure (\<lambda>(c, perm). perm)"
    by simp
qed

declare clear_lsb_loop.simps [simp del]

text \<open>
  \<^verbatim>\<open>bitCapIntOclPtr[0]\<close> is maxI and \<^verbatim>\<open>bitCapIntOclPtr[1]\<close> the mask; \<^verbatim>\<open>cmplx_ptr[0]\<close> is
  \<open>phaseFac\<close> and \<^verbatim>\<open>cmplx_ptr[1]\<close> is \<open>phaseFacAdj\<close>.
\<close>

definition uniformparityrz :: "nat \<Rightarrow> nat \<Rightarrow> nat list \<Rightarrow> ('r::{plus,minus,times}) cmplx list
    \<Rightarrow> 'r cmplx list \<Rightarrow> 'r cmplx list" where
  "uniformparityrz ID Nthreads bitCapIntOclPtr cmplx_ptr stateVec =
     (let maxI = bitCapIntOclPtr ! 0;
          qMask = bitCapIntOclPtr ! 1;
          phaseFac = cmplx_ptr ! 0;
          phaseFacAdj = cmplx_ptr ! 1
      in work_item ID Nthreads maxI
           (\<lambda>lcv stateVec.
              let perm = lcv AND qMask;
                  c = clear_lsb_loop 0 perm
              in stateVec[lcv := zmul (stateVec ! lcv)
                                      (if c AND 1 \<noteq> 0 then phaseFac else phaseFacAdj)])
           stateVec)"

text \<open>
  The controlled variant first spreads the loop counter over the bits that are not
  controls (one round per entry of \<open>qPowers\<close>) and sets the control bits.
\<close>

fun push_apart :: "nat list \<Rightarrow> nat \<Rightarrow> nat \<Rightarrow> nat \<times> nat" where
  "push_apart [] iHigh i = (iHigh, i)"
| "push_apart (qPower # qPowers) iHigh i =
     (let iLow = iHigh AND (qPower - 1)
      in push_apart qPowers (push_bit 1 (iHigh XOR iLow)) (i OR iLow))"

definition cuniformparityrz :: "nat \<Rightarrow> nat \<Rightarrow> nat list \<Rightarrow> ('r::{plus,minus,times}) cmplx list
    \<Rightarrow> nat list \<Rightarrow> 'r cmplx list \<Rightarrow> 'r cmplx list" where
  "cuniformparityrz ID Nthreads bitCapIntOclPtr cmplx_ptr qPowers stateVec =
     (let maxI = bitCapIntOclPtr ! 0;
          qMask = bitCapIntOclPtr ! 1;
          cMask = bitCapIntOclPtr ! 2;
          cLen = bitCapIntOclPtr ! 3;
          phaseFac = cmplx_ptr ! 0;
          phaseFacAdj = cmplx_ptr ! 1
      in work_item ID Nthreads maxI
           (\<lambda>lcv stateVec.
              let (iHigh, i0) = push_apart (take cLen qPowers) lcv 0;
                  i = i0 OR iHigh OR cMask;
                  perm = i AND qMask;
                  c = clear_lsb_loop 0 perm
              in stateVec[i := zmul (stateVec ! i)
                                    (if c AND 1 \<noteq> 0 then phaseFac else phaseFacAdj)])
           stateVec)"

subsection \<open>The increment kernel\<close>

text \<open>
  \<^verbatim>\<open>bitCapIntOcl\<close> is an unsigned 64-bit integer; the addition of \<open>toAdd\<close> wraps around.
  The arguments are maxI, inOutMask, otherMask, the length power, inOutStart and toAdd. The
  loop counter stays below maxI and is kept as a natural number.
\<close>

type_synonym bitCapIntOcl = "64 word"

text \<open>
  The index that the kernel writes for the source index \<open>i\<close>:
  \<^verbatim>\<open>(((((i & inOutMask) >> inOutStart) + toAdd) & lengthMask) << inOutStart) | (i & otherMask)\<close>.
\<close>

definition inc_dest :: "bitCapIntOcl \<Rightarrow> bitCapIntOcl \<Rightarrow> bitCapIntOcl \<Rightarrow> nat \<Rightarrow> bitCapIntOcl
    \<Rightarrow> bitCapIntOcl \<Rightarrow> bitCapIntOcl" where
  "inc_dest inOutMask otherMask lengthMask inOutStart toAdd i =
     push_bit inOutStart ((drop_bit inOutStart (i AND inOutMask) + toAdd) AND lengthMask)
     OR (i AND otherMask)"

definition inc :: "nat \<Rightarrow> nat \<Rightarrow> 'a list \<Rightarrow> bitCapIntOcl list \<Rightarrow> 'a list \<Rightarrow> 'a list" where
  "inc ID Nthreads stateVec bitCapIntOclPtr nStateVec =
     (let maxI = bitCapIntOclPtr ! 0;
          inOutMask = bitCapIntOclPtr ! 1;
          otherMask = bitCapIntOclPtr ! 2;
          lengthMask = bitCapIntOclPtr ! 3 - 1;
          inOutStart = bitCapIntOclPtr ! 4;
          toAdd = bitCapIntOclPtr ! 5
      in work_item ID Nthreads (unat maxI)
           (\<lambda>lcv nStateVec.
              let i = (of_nat lcv :: bitCapIntOcl)
              in nStateVec[unat (inc_dest inOutMask otherMask lengthMask (unat inOutStart) toAdd i)
                           := stateVec ! unat i])
           nStateVec)"

section \<open>Engines\<close>

text \<open>
  \<^verbatim>\<open>QInterface\<close> holds the qubit count and the number of basis states; the engines add the
  running norm and the amplitude array.
\<close>

record QInterface =
  qubitCount :: nat
  maxQPower :: nat

record 'amp QEngine = QInterface +
  runningNorm :: real
  stateVec :: "'amp list"

definition SetQubitCount :: "nat \<Rightarrow> 'z QInterface_scheme \<Rightarrow> 'z QInterface_scheme" where
  "SetQubitCount qb e = e\<lparr>qubitCount := qb, maxQPower := push_bit qb 1\<rparr>"

definition ResetStateVec :: "'amp list \<Rightarrow> 'amp QEngine \<Rightarrow> 'amp QEngine" where
  "ResetStateVec nStateVec e = e\<lparr>stateVec := nStateVec\<rparr>"

section \<open>The OpenCL engine: integer addition\<close>

type_synonym bitCapInt = "64 word"

text \<open>
  \<^verbatim>\<open>QEngineOCL::DispatchCall\<close> (through \<^verbatim>\<open>CDispatchCall\<close> with no controls): a new buffer
  of maxQPower amplitudes is allocated and filled with zeros, the kernel \<open>api_call\<close> runs with
  the state buffer, the argument buffer and the new buffer, and the new buffer becomes the
  state. \<open>ngc\<close> is the number of work items the host enqueues.
\<close>

definition DispatchCall :: "nat \<Rightarrow> (nat \<Rightarrow> nat \<Rightarrow> ('r::zero) cmplx list \<Rightarrow> bitCapInt list \<Rightarrow> 'r cmplx list \<Rightarrow> 'r cmplx list)
    \<Rightarrow> bitCapInt list \<Rightarrow> 'r cmplx QEngine \<Rightarrow> 'r cmplx QEngine" where
  "DispatchCall ngc api_call bciArgs e =
     (let nStateVec = replicate (maxQPower e) (0, 0);
          nStateVec = enqueueNDRangeKernel ngc
                        (\<lambda>ID Nthreads. api_call ID Nthreads (stateVec e) bciArgs) nStateVec
      in ResetStateVec nStateVec e)"

text \<open>
  \<^verbatim>\<open>QEngineOCL::INT\<close> (\<open>INT\<close> is taken in HOL). \<^verbatim>\<open>1 << length\<close> is a shift of an \<^verbatim>\<open>int\<close>, defined up to 30, and
  the mask is shifted by \<open>start\<close> in 64 bits; outside these ranges the model gives \<open>None\<close>.
\<close>

definition INT_ocl :: "nat \<Rightarrow> (nat \<Rightarrow> nat \<Rightarrow> ('r::zero) cmplx list \<Rightarrow> bitCapInt list \<Rightarrow> 'r cmplx list \<Rightarrow> 'r cmplx list)
    \<Rightarrow> bitCapInt \<Rightarrow> nat \<Rightarrow> nat \<Rightarrow> 'r cmplx QEngine \<Rightarrow> 'r cmplx QEngine option" where
  "INT_ocl ngc api_call toMod start len e =
     (if 30 < len \<or> 64 \<le> start then None
      else
        let lengthPower = (push_bit len 1 :: bitCapInt);
            regMask = push_bit start (lengthPower - 1);
            otherMask = (of_nat (maxQPower e) - 1) AND NOT regMask;
            bciArgs = [of_nat (maxQPower e), regMask, otherMask, lengthPower, of_nat start, toMod,
                       0, 0, 0, 0]
        in Some (DispatchCall ngc api_call bciArgs e))"

definition INC :: "nat \<Rightarrow> bitCapInt \<Rightarrow> nat \<Rightarrow> nat \<Rightarrow> ('r::zero) cmplx QEngine \<Rightarrow> 'r cmplx QEngine option" where
  "INC ngc toAdd start len e = INT_ocl ngc inc toAdd start len e"

text \<open>
  The index to which \<^verbatim>\<open>INT\<close> with the kernel \<open>inc\<close> moves the amplitude of index \<open>i\<close> in a
  register of \<open>n\<close> qubits: the kernel's destination under the masks that the host computes.
\<close>

definition inc_index :: "nat \<Rightarrow> nat \<Rightarrow> nat \<Rightarrow> bitCapInt \<Rightarrow> nat \<Rightarrow> nat" where
  "inc_index n start len toAdd i =
     unat (inc_dest (push_bit start (push_bit len 1 - 1))
                    ((of_nat (2 ^ n) - 1) AND NOT (push_bit start (push_bit len 1 - 1)))
                    (push_bit len 1 - 1) start toAdd (of_nat i))"

section \<open>The OpenCL engine: parity rotation\<close>

text \<open>
  Modelled from the spec: the host method \<^verbatim>\<open>UniformParityRZ(mask, angle)\<close> of the OpenCL
  engine is not among the sources, only the kernel is. By the spec it multiplies each
  amplitude by \<open>e^{i angle}\<close> or \<open>e^{-i angle}\<close> according to the parity of its index under the mask, so
  it has to hand the kernel the number of amplitudes, the mask, and the two factors
  \<open>cos angle + i sin angle\<close> (the kernel's \<open>phaseFac\<close>) and \<open>cos angle - i sin angle\<close> (its
  \<open>phaseFacAdj\<close>, the adjoint).
\<close>

definition UniformParityRZ :: "nat \<Rightarrow> nat \<Rightarrow> real \<Rightarrow> real cmplx QEngine \<Rightarrow> real cmplx QEngine" where
  "UniformParityRZ ngc qMask angle e =
     (let cosine = cos angle;
          sine = sin angle;
          bciArgs = [maxQPower e, qMask];
          phaseFacs = [(cosine, sine), (cosine, - sine)]
      in e\<lparr>stateVec := enqueueNDRangeKernel ngc
                (\<lambda>ID Nthreads. uniformparityrz ID Nthreads bciArgs phaseFacs) (stateVec e)\<rparr>)"

text \<open>The complex number that a \<^verbatim>\<open>cmplx\<close> with real components stands for.\<close>

definition cmplx_value :: "real cmplx \<Rightarrow> complex" where
  "cmplx_value a = Complex (fst a) (snd a)"

section \<open>The CPU engine\<close>

type_synonym QEngineCPU = "complex QEngine"

text \<open>\<^verbatim>\<open>min_norm\<close> of the double-precision build.\<close>

definition min_norm :: real where
  "min_norm = 1 / 10 ^ 15"

text \<open>\<^verbatim>\<open>std::norm\<close>: the squared magnitude.\<close>

definition norm2 :: "complex \<Rightarrow> real" where
  "norm2 z = Re z * Re z + Im z * Im z"

text \<open>
  \<^verbatim>\<open>par_for(begin, end, fn)\<close> calls \<open>fn\<close> once for every index of the range. The loop
  bodies modelled here are independent across indices, so the indices are taken in order.
\<close>

definition par_for :: "nat \<Rightarrow> nat \<Rightarrow> (nat \<Rightarrow> 's \<Rightarrow> 's) \<Rightarrow> 's \<Rightarrow> 's" where
  "par_for lo hi fn s = fold fn [lo..<hi] s"

text \<open>
  \<^verbatim>\<open>AllocStateVec\<close> returns memory that is not initialised: its contents are whatever the
  allocator hands out, here the function \<open>junk\<close>.
\<close>

definition AllocStateVec :: "(nat \<Rightarrow> complex) \<Rightarrow> nat \<Rightarrow> complex list" where
  "AllocStateVec junk elemCount = map junk [0..<elemCount]"

definition NormalizeState :: "QEngineCPU \<Rightarrow> QEngineCPU" where
  "NormalizeState e =
     (let sv = par_for 0 (maxQPower e)
                 (\<lambda>lcv sv.
                    let sv1 = sv[lcv := sv ! lcv / complex_of_real (runningNorm e)]
                    in if norm2 (sv1 ! lcv) < min_norm then sv1[lcv := 0] else sv1)
                 (stateVec e)
      in e\<lparr>stateVec := sv, runningNorm := 1\<rparr>)"

text \<open>
  \<^verbatim>\<open>QEngineCPU::Cohere(QEngineCPUPtr toCopy)\<close>. The result is the old qubit count, the
  engine itself and \<open>toCopy\<close> (which the call may normalise). The powers of two are written
  \<^verbatim>\<open>1 << n\<close> on \<^verbatim>\<open>int\<close>, which is defined up to \<open>n = 30\<close>: beyond that the model gives
  \<open>None\<close>.
\<close>

definition Cohere :: "(nat \<Rightarrow> complex) \<Rightarrow> QEngineCPU \<Rightarrow> QEngineCPU
    \<Rightarrow> (nat \<times> QEngineCPU \<times> QEngineCPU) option" where
  "Cohere junk this toCopy =
     (let result = qubitCount this;
          this1 = (if runningNorm this \<noteq> 1 then NormalizeState this else this);
          toCopy1 = (if runningNorm toCopy \<noteq> 1 then NormalizeState toCopy else toCopy);
          nQubitCount = qubitCount this1 + qubitCount toCopy1
      in if 30 < nQubitCount then None
         else
           let nMaxQPower = push_bit nQubitCount (1::nat);
               startMask = push_bit (qubitCount this1) (1::nat) - 1;
               endMask = push_bit (qubitCount this1) (push_bit (qubitCount toCopy1) (1::nat) - 1);
               nStateVec = par_for 0 nMaxQPower
                 (\<lambda>lcv nStateVec.
                    nStateVec[lcv := stateVec this1 ! (lcv AND startMask)
                                     * stateVec toCopy1 ! (drop_bit (qubitCount this1) (lcv AND endMask))])
                 (AllocStateVec junk nMaxQPower)
           in Some (result, ResetStateVec nStateVec (SetQubitCount nQubitCount this1), toCopy1))"

subsection \<open>Decohere\<close>

text \<open>\<^verbatim>\<open>std::arg\<close> is \<^verbatim>\<open>atan2(imag, real)\<close>, with value 0 at the origin.\<close>

definition atan2 :: "real \<Rightarrow> real \<Rightarrow> real" where
  "atan2 y x =
     (if 0 < x then arctan (y / x)
      else if x < 0 then (if 0 \<le> y then arctan (y / x) + pi else arctan (y / x) - pi)
      else if 0 < y then pi / 2
      else if y < 0 then - pi / 2
      else 0)"

definition arg :: "complex \<Rightarrow> real" where
  "arg z = atan2 (Im z) (Re z)"

text \<open>
  The four work arrays of \<^verbatim>\<open>Decohere\<close>. The probability arrays are value-initialised
  (\<^verbatim>\<open>new real1[n]()\<close>), the angle arrays are not (\<^verbatim>\<open>new real1[n]\<close>): they start with
  whatever the allocator hands out.
\<close>

record decohere_arrays =
  partStateProb :: "real list"
  remainderStateProb :: "real list"
  partStateAngle :: "real list"
  remainderStateAngle :: "real list"

definition remainder_loop :: "nat \<Rightarrow> nat \<Rightarrow> nat \<Rightarrow> complex list \<Rightarrow> nat \<Rightarrow> decohere_arrays
    \<Rightarrow> decohere_arrays" where
  "remainder_loop start len partPower sv lcv w =
     (let j = lcv mod (push_bit start 1);
          j = j OR push_bit len (lcv XOR j);
          w = fold (\<lambda>k w.
                      let l = j OR push_bit start k
                      in w\<lparr>remainderStateProb :=
                            (remainderStateProb w)[lcv := remainderStateProb w ! lcv + norm2 (sv ! l)]\<rparr>)
                [0..<partPower] w
      in w\<lparr>remainderStateAngle := (remainderStateAngle w)[lcv := arg (sv ! j)]\<rparr>)"

definition part_loop :: "nat \<Rightarrow> nat \<Rightarrow> nat \<Rightarrow> complex list \<Rightarrow> nat \<Rightarrow> decohere_arrays
    \<Rightarrow> decohere_arrays" where
  "part_loop start len remainderPower sv lcv w =
     (let j = push_bit start lcv;
          w = fold (\<lambda>k w.
                      let l = k mod (push_bit start 1);
                          l = l OR push_bit len (k XOR l);
                          l = j OR l
                      in w\<lparr>partStateProb :=
                            (partStateProb w)[lcv := partStateProb w ! lcv + norm2 (sv ! l)]\<rparr>)
                [0..<remainderPower] w
      in w\<lparr>remainderStateAngle := (remainderStateAngle w)[lcv := arg (sv ! j)]\<rparr>)"

text \<open>
  \<^verbatim>\<open>QEngineCPU::Decohere(start, length, destination)\<close>, returning the engine and the
  destination. \<open>junk\<close>, \<open>junkP\<close> and \<open>junkR\<close> are the contents of the memory that the call
  allocates without initialising it. The model gives \<open>None\<close> where the C++ is undefined: a
  shift of \<^verbatim>\<open>int\<close> beyond 30 bits, a range that does not fit the register, a destination
  with fewer than \<open>partPower\<close> amplitudes, and \<open>partPower > remainderPower\<close>, where the second
  loop writes \<open>remainderStateAngle[lcv]\<close> past the end of that array.
\<close>

definition Decohere :: "(nat \<Rightarrow> complex) \<Rightarrow> (nat \<Rightarrow> real) \<Rightarrow> (nat \<Rightarrow> real) \<Rightarrow> nat \<Rightarrow> nat
    \<Rightarrow> QEngineCPU \<Rightarrow> QEngineCPU \<Rightarrow> (QEngineCPU \<times> QEngineCPU) option" where
  "Decohere junk junkP junkR start len destination this =
     (if len = 0 then Some (this, destination)
      else
        let this = (if runningNorm this \<noteq> 1 then NormalizeState this else this);
            partPower = push_bit len (1::nat);
            remainderPower = push_bit (qubitCount this - len) (1::nat)
        in if 30 < qubitCount this \<or> qubitCount this < start + len
              \<or> remainderPower < partPower \<or> length (stateVec destination) < partPower
           then None
           else
             let w = \<lparr>partStateProb = replicate partPower 0,
                      remainderStateProb = replicate remainderPower 0,
                      partStateAngle = map junkP [0..<partPower],
                      remainderStateAngle = map junkR [0..<remainderPower]\<rparr>;
                 w = par_for 0 remainderPower (remainder_loop start len partPower (stateVec this)) w;
                 w = par_for 0 partPower (part_loop start len remainderPower (stateVec this)) w;
                 this = (if maxQPower this - partPower = 0 then SetQubitCount 1 this
                         else SetQubitCount (qubitCount this - len) this);
                 this = ResetStateVec (AllocStateVec junk (maxQPower this)) this;
                 destination = destination\<lparr>stateVec :=
                   par_for 0 partPower
                     (\<lambda>lcv sv. sv[lcv := complex_of_real (sqrt (partStateProb w ! lcv))
                                        * Complex (cos (partStateAngle w ! lcv)) (sin (partStateAngle w ! lcv))])
                     (stateVec destination)\<rparr>;
                 this = this\<lparr>stateVec :=
                   par_for 0 remainderPower
                     (\<lambda>lcv sv. sv[lcv := complex_of_real (sqrt (remainderStateProb w ! lcv))
                                        * Complex (cos (remainderStateAngle w ! lcv))
                                                  (sin (remainderStateAngle w ! lcv))])
                     (stateVec this)\<rparr>
             in Some (this, destination))"

subsection \<open>Construction\<close>







subsection \<open>Probability queries\<close>

text \<open>
  \<^verbatim>\<open>QEngineCPU::Prob(qubit)\<close> and \<^verbatim>\<open>QEngineCPU::ProbAll(fullRegister)\<close> return a
  probability and may change the engine, so the model returns both. \<^verbatim>\<open>1 << qubit\<close> is a
  shift of an \<^verbatim>\<open>int\<close>: the model gives \<open>None\<close> beyond 30.
\<close>

definition Prob_CPU :: "nat \<Rightarrow> QEngineCPU \<Rightarrow> (real \<times> QEngineCPU) option" where
  "Prob_CPU qubit e =
     (let e = (if runningNorm e \<noteq> 1 then NormalizeState e else e)
      in if 30 < qubit then None
         else
           let qPower = push_bit qubit (1::nat);
               oneChance = fold (\<lambda>lcv oneChance.
                                   if lcv AND qPower = qPower
                                   then oneChance + norm2 (stateVec e ! lcv)
                                   else oneChance)
                             [0..<maxQPower e] 0
           in Some (oneChance, e))"

definition ProbAll_CPU :: "nat \<Rightarrow> QEngineCPU \<Rightarrow> real \<times> QEngineCPU" where
  "ProbAll_CPU fullRegister e =
     (let e = (if runningNorm e \<noteq> 1 then NormalizeState e else e)
      in (norm2 (stateVec e ! fullRegister), e))"

subsection \<open>Dispose\<close>

text \<open>
  \<^verbatim>\<open>QEngineCPU::Dispose(start, length)\<close>. As in \<open>Decohere\<close>, \<open>junk\<close> and \<open>junkP\<close> are the
  contents of memory that is allocated without being initialised, and the model gives
  \<open>None\<close> where a shift of \<^verbatim>\<open>int\<close> is undefined, where the unsigned difference
  \<^verbatim>\<open>maxQPower - partPower\<close> would wrap around, and where the range does not fit the
  register, so that the loop would write outside the arrays.
\<close>

definition Dispose_CPU :: "(nat \<Rightarrow> complex) \<Rightarrow> (nat \<Rightarrow> real) \<Rightarrow> nat \<Rightarrow> nat \<Rightarrow> QEngineCPU
    \<Rightarrow> QEngineCPU option" where
  "Dispose_CPU junk junkP start len this =
     (if len = 0 then Some this
      else
        let this = (if runningNorm this \<noteq> 1 then NormalizeState this else this)
        in if 30 < len \<or> 30 < start \<or> maxQPower this < push_bit len 1 then None
           else
             let partPower = push_bit len (1::nat);
                 mask = push_bit start (partPower - 1);
                 startMask = push_bit start (1::nat) - 1;
                 endMask = (maxQPower this - 1) XOR (mask OR startMask)
             in if maxQPower this - partPower = 0 then
                  let this = SetQubitCount 1 this
                  in Some (ResetStateVec (AllocStateVec junk (maxQPower this)) this)
                else if qubitCount this < start + len \<or> 30 < qubitCount this then None
                else
                  let remainderPower = push_bit (qubitCount this - len) (1::nat);
                      w = (replicate remainderPower 0, map junkP [0..<remainderPower]);
                      w = fold (\<lambda>i (partStateProb, partStateAngle).
                                  let prob = norm2 (stateVec this ! i);
                                      angle = arg (stateVec this ! i);
                                      k = (i AND startMask) OR drop_bit len (i AND endMask)
                                  in (partStateProb[k := partStateProb ! k + prob],
                                      partStateAngle[k := angle]))
                            [0..<maxQPower this] w;
                      this = SetQubitCount (qubitCount this - len) this;
                      this = ResetStateVec (AllocStateVec junk (maxQPower this)) this
                  in Some (this\<lparr>stateVec :=
                       par_for 0 (maxQPower this)
                         (\<lambda>lcv sv. sv[lcv := complex_of_real (sqrt (fst w ! lcv))
                                            * Complex (cos (snd w ! lcv)) (sin (snd w ! lcv))])
                         (stateVec this)\<rparr>))"

section \<open>The pager\<close>

text \<open>
  A pager holds \<open>qPageCount\<close> pages of \<open>2 ^ qubitsPerPage\<close> amplitudes each; the global
  state is the pages one after the other (\<^verbatim>\<open>CombineEngines\<close> copies page \<open>i\<close> to offset
  \<open>i * qPageMaxQPower\<close>).
\<close>

record QPager = QInterface +
  qubitsPerPage :: nat
  qPageCount :: nat
  randGlobalPhase :: bool
  qPages :: "complex list list"

text \<open>
  \<^verbatim>\<open>pow2(p)\<close> comes from a header that is not among the sources; by its name and its use
  for page offsets it is the \<open>p\<close>-th power of two.
\<close>

definition pow2 :: "nat \<Rightarrow> nat" where
  "pow2 p = push_bit p 1"



text \<open>
  Modelled from the spec: the page engines' own \<^verbatim>\<open>ApplySinglePhase\<close> and
  \<^verbatim>\<open>ApplySingleInvert\<close> are not among the sources. The spec has them apply the diagonal
  matrix (topLeft, bottomRight), respectively the anti-diagonal matrix (topRight,
  bottomLeft), over the axis of the target qubit; the kernel macros \<^verbatim>\<open>APPLY_PHASE\<close> and
  \<^verbatim>\<open>APPLY_INVERT\<close> do the same on a pair of amplitudes.
\<close>

definition engine_ApplySinglePhase :: "complex \<Rightarrow> complex \<Rightarrow> nat \<Rightarrow> complex list \<Rightarrow> complex list" where
  "engine_ApplySinglePhase topLeft bottomRight target sv =
     map (\<lambda>i. if bit i target then bottomRight * sv ! i else topLeft * sv ! i) [0..<length sv]"

definition engine_ApplySingleInvert :: "complex \<Rightarrow> complex \<Rightarrow> nat \<Rightarrow> complex list \<Rightarrow> complex list" where
  "engine_ApplySingleInvert topRight bottomLeft target sv =
     map (\<lambda>i. if bit i target then bottomLeft * sv ! (i - pow2 target)
               else topRight * sv ! (i + pow2 target))
       [0..<length sv]"

text \<open>\<^verbatim>\<open>QPager::ApplySingleInvert(tr, bl, target)\<close>.\<close>

definition ApplySingleInvert :: "complex \<Rightarrow> complex \<Rightarrow> nat \<Rightarrow> QPager \<Rightarrow> QPager" where
  "ApplySingleInvert tr bl target p =
     (let topRight = tr;
          bottomLeft = bl
      in if topRight = - bottomLeft \<and> (randGlobalPhase p \<or> topRight = 1) then p
         else if target < qubitsPerPage p then
           p\<lparr>qPages :=
               fold (\<lambda>i pages. pages[i := engine_ApplySingleInvert topRight bottomLeft target (pages ! i)])
                 [0..<qPageCount p] (qPages p)\<rparr>
         else
           let topRight = (if randGlobalPhase p then 1 else topRight);
               bottomLeft = (if randGlobalPhase p then bottomLeft / topRight else bottomLeft);
               offset = pow2 (target - qubitsPerPage p);
               qMask = offset - 1;
               maxLcv = drop_bit 1 (qPageCount p)
           in p\<lparr>qPages :=
                  fold (\<lambda>lcv pages.
                          let i = lcv AND qMask;
                              i = i OR push_bit 1 (lcv XOR i);
                              pages = pages[i := pages ! (i + offset), i + offset := pages ! i];
                              pages = (if topRight \<noteq> 1
                                       then pages[i := engine_ApplySinglePhase topRight topRight 0 (pages ! i)]
                                       else pages);
                              pages = (if bottomLeft \<noteq> 1
                                       then pages[i + offset :=
                                              engine_ApplySinglePhase bottomLeft bottomLeft 0 (pages ! (i + offset))]
                                       else pages)
                          in pages)
                    [0..<maxLcv] (qPages p)\<rparr>)"

section \<open>The stabilizer hybrid\<close>

text \<open>
  The hybrid holds a stabilizer or an engine (the other pointer is null) and one optional
  buffered 2x2 matrix per qubit.
\<close>

record ('stab, 'eng) QStabilizerHybrid = QInterface +
  stabilizer :: "'stab option"
  engine :: "'eng option"
  shards :: "complex list option list"
  shardsEigenZ :: "bool list"

text \<open>
  The gates of the stabilizer class that the hybrid calls, \<^verbatim>\<open>stabilizer->H(target)\<close> and so
  on, and the gates that it only forwards to its engine.
\<close>

datatype stabilizer_gate =
    Stab_H nat | Stab_S nat | Stab_IS nat | Stab_X nat | Stab_Y nat | Stab_Z nat
  | Stab_SqrtX nat | Stab_ISqrtX nat | Stab_SqrtY nat | Stab_ISqrtY nat
  | Stab_CNOT nat nat | Stab_CZ nat nat | Stab_CY nat nat

datatype engine_gate =
    Eng_CH nat nat | Eng_CS nat nat | Eng_CIS nat nat
  | Eng_ApplySinglePhase complex complex nat
  | Eng_ApplySingleInvert complex complex nat
  | Eng_ApplyControlledSingleBit "nat list" nat "complex list"
  | Eng_ApplyControlledSinglePhase "nat list" nat complex complex
  | Eng_ApplyControlledSingleInvert "nat list" nat complex complex
  | Eng_ApplyAntiControlledSingleBit "nat list" nat "complex list"
  | Eng_ApplyAntiControlledSinglePhase "nat list" nat complex complex
  | Eng_ApplyAntiControlledSingleInvert "nat list" nat complex complex

text \<open>
  The stabilizer class, the shard class, the engine behind \<^verbatim>\<open>CreateQuantumInterface\<close> and
  the methods and macros that the hybrid takes from its header are not among the sources.
  They are taken as parameters: one record of functions, passed to every method below. A
  method that is not declared \<^verbatim>\<open>const\<close> returns the object it was called on next to its
  result. The fields are, in this order: the stabilizer's methods; the engine's methods;
  the shard's methods; \<^verbatim>\<open>IS_SAME\<close>, \<^verbatim>\<open>amplitudeFloor\<close> and \<^verbatim>\<open>IsIdentity\<close>; and the hybrid's
  own header methods (\<open>H_gate\<close>, \<open>S_gate\<close> and \<open>IS_gate\<close> are its \<^verbatim>\<open>H\<close>, \<^verbatim>\<open>S\<close> and \<^verbatim>\<open>IS\<close>).
\<close>

record ('stab, 'eng) collaborators =
  QStabilizer_new :: "nat \<Rightarrow> nat \<Rightarrow> 'stab"
  QStabilizer_GetQuantumState :: "'stab \<Rightarrow> 'eng \<Rightarrow> 'eng"
  QStabilizer_CanDecomposeDispose :: "nat \<Rightarrow> nat \<Rightarrow> 'stab \<Rightarrow> bool"
  QStabilizer_Dispose :: "nat \<Rightarrow> nat \<Rightarrow> 'stab \<Rightarrow> 'stab"
  QStabilizer_Decompose :: "nat \<Rightarrow> 'stab \<Rightarrow> 'stab \<Rightarrow> 'stab \<times> 'stab"
  QStabilizer_SetPermutation :: "nat \<Rightarrow> 'stab \<Rightarrow> 'stab"
  QStabilizer_apply :: "stabilizer_gate \<Rightarrow> 'stab \<Rightarrow> 'stab"
  QStabilizer_IsSeparableZ :: "nat \<Rightarrow> 'stab \<Rightarrow> bool \<times> 'stab"
  QStabilizer_IsSeparableX :: "nat \<Rightarrow> 'stab \<Rightarrow> bool \<times> 'stab"
  QStabilizer_IsSeparableY :: "nat \<Rightarrow> 'stab \<Rightarrow> bool \<times> 'stab"
  QStabilizer_M :: "nat \<Rightarrow> 'stab \<Rightarrow> bool \<times> 'stab"
  QStabilizer_GetProbs :: "'stab \<Rightarrow> real list \<times> 'stab"
  CreateQuantumInterface :: "nat \<Rightarrow> nat \<Rightarrow> 'eng"
  engine_ApplySingleBit :: "complex list \<Rightarrow> nat \<Rightarrow> 'eng \<Rightarrow> 'eng"
  engine_Dispose :: "nat \<Rightarrow> nat \<Rightarrow> 'eng \<Rightarrow> 'eng"
  engine_Decompose :: "nat \<Rightarrow> 'eng \<Rightarrow> 'eng \<Rightarrow> 'eng \<times> 'eng"
  engine_Dispose_perm :: "nat \<Rightarrow> nat \<Rightarrow> nat \<Rightarrow> 'eng \<Rightarrow> 'eng"
  engine_SetQuantumState :: "complex list \<Rightarrow> 'eng \<Rightarrow> 'eng"
  engine_CCNOT :: "nat \<Rightarrow> nat \<Rightarrow> nat \<Rightarrow> 'eng \<Rightarrow> 'eng"
  engine_CCZ :: "nat \<Rightarrow> nat \<Rightarrow> nat \<Rightarrow> 'eng \<Rightarrow> 'eng"
  engine_CCY :: "nat \<Rightarrow> nat \<Rightarrow> nat \<Rightarrow> 'eng \<Rightarrow> 'eng"
  engine_apply :: "engine_gate \<Rightarrow> 'eng \<Rightarrow> 'eng"
  engine_GetProbs :: "'eng \<Rightarrow> real list \<times> 'eng"
  engine_MAll :: "'eng \<Rightarrow> nat \<times> 'eng"
  shard_Compose :: "complex list \<Rightarrow> complex list \<Rightarrow> complex list"
  shard_IsInvert :: "complex list \<Rightarrow> bool"
  shard_IsPhase :: "complex list \<Rightarrow> bool"
  IS_SAME :: "complex \<Rightarrow> complex \<Rightarrow> bool"
  amplitudeFloor :: real
  IsIdentity :: "complex list \<Rightarrow> bool \<Rightarrow> bool"
  Prob :: "nat \<Rightarrow> ('stab, 'eng) QStabilizerHybrid \<Rightarrow> real \<times> ('stab, 'eng) QStabilizerHybrid"
  CNOT :: "nat \<Rightarrow> nat \<Rightarrow> ('stab, 'eng) QStabilizerHybrid \<Rightarrow> ('stab, 'eng) QStabilizerHybrid"
  CZ :: "nat \<Rightarrow> nat \<Rightarrow> ('stab, 'eng) QStabilizerHybrid \<Rightarrow> ('stab, 'eng) QStabilizerHybrid"
  CY :: "nat \<Rightarrow> nat \<Rightarrow> ('stab, 'eng) QStabilizerHybrid \<Rightarrow> ('stab, 'eng) QStabilizerHybrid"
  H_gate :: "nat \<Rightarrow> ('stab, 'eng) QStabilizerHybrid \<Rightarrow> ('stab, 'eng) QStabilizerHybrid"
  S_gate :: "nat \<Rightarrow> ('stab, 'eng) QStabilizerHybrid \<Rightarrow> ('stab, 'eng) QStabilizerHybrid"
  IS_gate :: "nat \<Rightarrow> ('stab, 'eng) QStabilizerHybrid \<Rightarrow> ('stab, 'eng) QStabilizerHybrid"
  TrimControls :: "nat list \<Rightarrow> bool \<Rightarrow> ('stab, 'eng) QStabilizerHybrid
    \<Rightarrow> (bool \<times> nat list) \<times> ('stab, 'eng) QStabilizerHybrid"
  FlushIfBlocked :: "nat list \<Rightarrow> nat \<Rightarrow> ('stab, 'eng) QStabilizerHybrid
    \<Rightarrow> ('stab, 'eng) QStabilizerHybrid"
  CollapseSeparableShard :: "nat \<Rightarrow> ('stab, 'eng) QStabilizerHybrid \<Rightarrow> ('stab, 'eng) QStabilizerHybrid"
  SetPermutation :: "nat \<Rightarrow> ('stab, 'eng) QStabilizerHybrid \<Rightarrow> ('stab, 'eng) QStabilizerHybrid"

datatype mode = StabilizerMode | EngineMode

text \<open>
  The mode of an instance is read off its two pointers. Exactly one of them is set by the
  constructor and by every method below; an instance with both or neither has no mode.
\<close>

definition mode_of :: "('stab, 'eng) QStabilizerHybrid \<Rightarrow> mode option" where
  "mode_of h =
     (case (stabilizer h, engine h) of
        (Some st, None) \<Rightarrow> Some StabilizerMode
      | (None, Some e) \<Rightarrow> Some EngineMode
      | _ \<Rightarrow> None)"

definition MakeStabilizer :: "('stab, 'eng) collaborators \<Rightarrow> nat \<Rightarrow> ('stab, 'eng) QStabilizerHybrid \<Rightarrow> 'stab" where
  "MakeStabilizer C perm h = QStabilizer_new C (qubitCount h) perm"

definition MakeEngine :: "('stab, 'eng) collaborators \<Rightarrow> nat \<Rightarrow> ('stab, 'eng) QStabilizerHybrid \<Rightarrow> 'eng" where
  "MakeEngine C perm h = CreateQuantumInterface C (qubitCount h) perm"

text \<open>
  Modelled from the spec: \<^verbatim>\<open>FlushBuffers\<close> and \<^verbatim>\<open>DumpBuffers\<close> are defined in the header,
  which is not among the sources. By the spec the switch to the engine flushes all shard
  buffers, that is, applies each buffered matrix to the engine and empties the buffer;
  dumping discards the buffers.
\<close>

definition FlushBuffers :: "('stab, 'eng) collaborators \<Rightarrow> ('stab, 'eng) QStabilizerHybrid
    \<Rightarrow> ('stab, 'eng) QStabilizerHybrid" where
  "FlushBuffers C h =
     fold (\<lambda>i h. case shards h ! i of
                    None \<Rightarrow> h
                  | Some gate \<Rightarrow>
                      h\<lparr>engine := map_option (engine_ApplySingleBit C gate i) (engine h),
                        shards := (shards h)[i := None]\<rparr>)
       [0..<length (shards h)] h"

definition DumpBuffers :: "('stab, 'eng) QStabilizerHybrid \<Rightarrow> ('stab, 'eng) QStabilizerHybrid" where
  "DumpBuffers h = h\<lparr>shards := map (\<lambda>_. None) (shards h)\<rparr>"

text \<open>
  \<^verbatim>\<open>QStabilizerHybrid::SwitchToEngine\<close>. A call through a null pointer is outside the model:
  \<open>map_option\<close> and \<open>case\<close> leave a null pointer as it is.
\<close>

definition SwitchToEngine :: "('stab, 'eng) collaborators \<Rightarrow> ('stab, 'eng) QStabilizerHybrid
    \<Rightarrow> ('stab, 'eng) QStabilizerHybrid" where
  "SwitchToEngine C h =
     (if engine h \<noteq> None then h
      else
        let e = MakeEngine C 0 h;
            e = (case stabilizer h of None \<Rightarrow> e | Some st \<Rightarrow> QStabilizer_GetQuantumState C st e);
            h = h\<lparr>engine := Some e, stabilizer := None\<rparr>
        in FlushBuffers C h)"

subsection \<open>Controlled gates\<close>

text \<open>
  \<^verbatim>\<open>CCNOT\<close>, \<^verbatim>\<open>CCZ\<close> and \<^verbatim>\<open>CCY\<close>, then \<^verbatim>\<open>CH\<close>, \<^verbatim>\<open>CS\<close> and \<^verbatim>\<open>CIS\<close>. \<^verbatim>\<open>Prob\<close> is the hybrid's
  own method and returns the probability together with the instance as the query leaves
  it.
\<close>

definition CCNOT :: "('stab, 'eng) collaborators \<Rightarrow> nat \<Rightarrow> nat \<Rightarrow> nat \<Rightarrow> ('stab, 'eng) QStabilizerHybrid
    \<Rightarrow> ('stab, 'eng) QStabilizerHybrid" where
  "CCNOT C control1 control2 target h =
     (if stabilizer h \<noteq> None then
        let (prob, h) = Prob C control1 h
        in if prob = 0 then h
           else if prob = 1 then CNOT C control2 target h
           else
             let (prob, h) = Prob C control2 h
             in if prob = 0 then h
                else if prob = 1 then CNOT C control1 target h
                else
                  let h = SwitchToEngine C h
                  in h\<lparr>engine := map_option (engine_CCNOT C control1 control2 target) (engine h)\<rparr>
      else h\<lparr>engine := map_option (engine_CCNOT C control1 control2 target) (engine h)\<rparr>)"

definition CH :: "('stab, 'eng) collaborators \<Rightarrow> nat \<Rightarrow> nat \<Rightarrow> ('stab, 'eng) QStabilizerHybrid
    \<Rightarrow> ('stab, 'eng) QStabilizerHybrid" where
  "CH C control target h =
     (if stabilizer h \<noteq> None then
        let (prob, h) = Prob C control h
        in if prob = 0 then h
           else if prob = 1 then H_gate C target h
           else
             let h = SwitchToEngine C h
             in h\<lparr>engine := map_option (engine_apply C (Eng_CH control target)) (engine h)\<rparr>
      else h\<lparr>engine := map_option (engine_apply C (Eng_CH control target)) (engine h)\<rparr>)"

definition CS :: "('stab, 'eng) collaborators \<Rightarrow> nat \<Rightarrow> nat \<Rightarrow> ('stab, 'eng) QStabilizerHybrid
    \<Rightarrow> ('stab, 'eng) QStabilizerHybrid" where
  "CS C control target h =
     (if stabilizer h \<noteq> None then
        let (prob, h) = Prob C control h
        in if prob = 0 then h
           else if prob = 1 then S_gate C target h
           else
             let h = SwitchToEngine C h
             in h\<lparr>engine := map_option (engine_apply C (Eng_CS control target)) (engine h)\<rparr>
      else h\<lparr>engine := map_option (engine_apply C (Eng_CS control target)) (engine h)\<rparr>)"

definition CIS :: "('stab, 'eng) collaborators \<Rightarrow> nat \<Rightarrow> nat \<Rightarrow> ('stab, 'eng) QStabilizerHybrid
    \<Rightarrow> ('stab, 'eng) QStabilizerHybrid" where
  "CIS C control target h =
     (if stabilizer h \<noteq> None then
        let (prob, h) = Prob C control h
        in if prob = 0 then h
           else if prob = 1 then IS_gate C target h
           else
             let h = SwitchToEngine C h
             in h\<lparr>engine := map_option (engine_apply C (Eng_CIS control target)) (engine h)\<rparr>
      else h\<lparr>engine := map_option (engine_apply C (Eng_CIS control target)) (engine h)\<rparr>)"

definition CCZ :: "('stab, 'eng) collaborators \<Rightarrow> nat \<Rightarrow> nat \<Rightarrow> nat \<Rightarrow> ('stab, 'eng) QStabilizerHybrid
    \<Rightarrow> ('stab, 'eng) QStabilizerHybrid" where
  "CCZ C control1 control2 target h =
     (if stabilizer h \<noteq> None then
        let (prob, h) = Prob C control1 h
        in if prob = 0 then h
           else if prob = 1 then CZ C control2 target h
           else
             let (prob, h) = Prob C control2 h
             in if prob = 0 then h
                else if prob = 1 then CZ C control1 target h
                else
                  let (prob, h) = Prob C target h
                  in if prob = 0 then h
                     else if prob = 1 then CZ C control1 control2 h
                     else
                       let h = SwitchToEngine C h
                       in h\<lparr>engine := map_option (engine_CCZ C control1 control2 target) (engine h)\<rparr>
      else h\<lparr>engine := map_option (engine_CCZ C control1 control2 target) (engine h)\<rparr>)"

definition CCY :: "('stab, 'eng) collaborators \<Rightarrow> nat \<Rightarrow> nat \<Rightarrow> nat \<Rightarrow> ('stab, 'eng) QStabilizerHybrid
    \<Rightarrow> ('stab, 'eng) QStabilizerHybrid" where
  "CCY C control1 control2 target h =
     (if stabilizer h \<noteq> None then
        let (prob, h) = Prob C control1 h
        in if prob = 0 then h
           else if prob = 1 then CY C control2 target h
           else
             let (prob, h) = Prob C control2 h
             in if prob = 0 then h
                else if prob = 1 then CY C control1 target h
                else
                  let h = SwitchToEngine C h
                  in h\<lparr>engine := map_option (engine_CCY C control1 control2 target) (engine h)\<rparr>
      else h\<lparr>engine := map_option (engine_CCY C control1 control2 target) (engine h)\<rparr>)"

subsection \<open>Decompose and Dispose\<close>

text \<open>\<^verbatim>\<open>shards.erase(shards.begin() + start, shards.begin() + start + length)\<close>.\<close>

definition erase :: "nat \<Rightarrow> nat \<Rightarrow> 'a list \<Rightarrow> 'a list" where
  "erase start len xs = take start xs @ drop (start + len) xs"

text \<open>
  A qubit count is a \<^verbatim>\<open>bitLenInt\<close>, that is a \<^verbatim>\<open>uint8_t\<close>, kept here as a natural number
  below 256. \<^verbatim>\<open>SetQubitCount(qubitCount - length)\<close> converts the difference back to
  \<^verbatim>\<open>bitLenInt\<close>: a difference below zero wraps around.
\<close>

definition bitLenInt_minus :: "nat \<Rightarrow> nat \<Rightarrow> nat" where
  "bitLenInt_minus a b = (if b \<le> a then a - b else a + 256 - b)"

definition Dispose :: "('stab, 'eng) collaborators \<Rightarrow> nat \<Rightarrow> nat \<Rightarrow> ('stab, 'eng) QStabilizerHybrid
    \<Rightarrow> ('stab, 'eng) QStabilizerHybrid" where
  "Dispose C start len h =
     (if len = qubitCount h then
        let h = h\<lparr>stabilizer := None, engine := None\<rparr>;
            h = DumpBuffers h;
            h = SetQubitCount 1 h
        in h\<lparr>stabilizer := Some (MakeStabilizer C 0 h)\<rparr>
      else
        let h = (if (case stabilizer h of
                       None \<Rightarrow> False
                     | Some st \<Rightarrow> \<not> QStabilizer_CanDecomposeDispose C start len st)
                 then SwitchToEngine C h else h);
            h = (if engine h \<noteq> None
                 then h\<lparr>engine := map_option (engine_Dispose C start len) (engine h)\<rparr>
                 else h\<lparr>stabilizer := map_option (QStabilizer_Dispose C start len) (stabilizer h)\<rparr>);
            h = h\<lparr>shards := erase start len (shards h),
                  shardsEigenZ := erase start len (shardsEigenZ h)\<rparr>
        in SetQubitCount (bitLenInt_minus (qubitCount h) len) h)"

definition Dispose_perm :: "('stab, 'eng) collaborators \<Rightarrow> nat \<Rightarrow> nat \<Rightarrow> nat \<Rightarrow> ('stab, 'eng) QStabilizerHybrid
    \<Rightarrow> ('stab, 'eng) QStabilizerHybrid" where
  "Dispose_perm C start len disposedPerm h =
     (if len = qubitCount h then
        let h = h\<lparr>stabilizer := None, engine := None\<rparr>;
            h = DumpBuffers h;
            h = SetQubitCount 1 h
        in h\<lparr>stabilizer := Some (MakeStabilizer C 0 h)\<rparr>
      else
        let h = (if (case stabilizer h of
                       None \<Rightarrow> False
                     | Some st \<Rightarrow> \<not> QStabilizer_CanDecomposeDispose C start len st)
                 then SwitchToEngine C h else h);
            h = (if engine h \<noteq> None
                 then h\<lparr>engine := map_option (engine_Dispose_perm C start len disposedPerm) (engine h)\<rparr>
                 else h\<lparr>stabilizer := map_option (QStabilizer_Dispose C start len) (stabilizer h)\<rparr>);
            h = h\<lparr>shards := erase start len (shards h),
                  shardsEigenZ := erase start len (shardsEigenZ h)\<rparr>
        in SetQubitCount (bitLenInt_minus (qubitCount h) len) h)"

text \<open>
  \<^verbatim>\<open>QStabilizerHybrid::Decompose(start, dest)\<close> changes both the instance and \<open>dest\<close> and
  returns them in this order. The sub-engines' own \<^verbatim>\<open>Decompose\<close> likewise return the source
  and the destination.
\<close>

definition Decompose :: "('stab, 'eng) collaborators \<Rightarrow> nat \<Rightarrow> ('stab, 'eng) QStabilizerHybrid
    \<Rightarrow> ('stab, 'eng) QStabilizerHybrid
    \<Rightarrow> ('stab, 'eng) QStabilizerHybrid \<times> ('stab, 'eng) QStabilizerHybrid" where
  "Decompose C start dest h =
     (let len = qubitCount dest
      in if len = qubitCount h then
           let dest = dest\<lparr>stabilizer := stabilizer h\<rparr>;
               h = h\<lparr>stabilizer := None\<rparr>;
               dest = dest\<lparr>engine := engine h\<rparr>;
               h = h\<lparr>engine := None\<rparr>;
               dest = dest\<lparr>shards := shards h, shardsEigenZ := shardsEigenZ h\<rparr>;
               h = DumpBuffers h;
               h = SetQubitCount 1 h
           in (h\<lparr>stabilizer := Some (MakeStabilizer C 0 h)\<rparr>, dest)
         else if engine h \<noteq> None then
           let dest = SwitchToEngine C dest
           in (case (engine h, engine dest) of
                 (Some e, Some d) \<Rightarrow>
                   let (e, d) = engine_Decompose C start e d
                   in (SetQubitCount (bitLenInt_minus (qubitCount h) len) (h\<lparr>engine := Some e\<rparr>),
                       dest\<lparr>engine := Some d\<rparr>)
               | _ \<Rightarrow> (SetQubitCount (bitLenInt_minus (qubitCount h) len) h, dest))
         else
           let dest = (if engine dest \<noteq> None
                       then dest\<lparr>engine := None, stabilizer := Some (MakeStabilizer C 0 dest)\<rparr>
                       else dest);
               (h, dest) = (case (stabilizer h, stabilizer dest) of
                              (Some st, Some d) \<Rightarrow>
                                let (st, d) = QStabilizer_Decompose C start st d
                                in (h\<lparr>stabilizer := Some st\<rparr>, dest\<lparr>stabilizer := Some d\<rparr>)
                            | _ \<Rightarrow> (h, dest));
               dest = dest\<lparr>shards := take len (drop start (shards h)) @ drop len (shards dest)\<rparr>;
               h = h\<lparr>shards := erase start len (shards h)\<rparr>;
               dest = dest\<lparr>shardsEigenZ :=
                        take len (drop start (shardsEigenZ h)) @ drop len (shardsEigenZ dest)\<rparr>;
               h = h\<lparr>shardsEigenZ := erase start len (shardsEigenZ h)\<rparr>
           in (SetQubitCount (bitLenInt_minus (qubitCount h) len) h, dest))"

subsection \<open>Single-qubit gates\<close>

text \<open>
  \<^verbatim>\<open>IS_NORM_0(c)\<close> is \<^verbatim>\<open>norm(c) <= amplitudeFloor\<close>. A run of calls
  \<^verbatim>\<open>stabilizer->G1(\<dots>); stabilizer->G2(\<dots>); \<dots>\<close> is \<open>stabilizer_do\<close> with the gates in that
  order, and the three separability queries return their answer and the instance with the
  stabilizer as the query leaves it.
\<close>

definition IS_NORM_0 :: "('stab, 'eng) collaborators \<Rightarrow> complex \<Rightarrow> bool" where
  "IS_NORM_0 C c \<longleftrightarrow> norm2 c \<le> amplitudeFloor C"

definition stabilizer_do :: "('stab, 'eng) collaborators \<Rightarrow> stabilizer_gate list
    \<Rightarrow> ('stab, 'eng) QStabilizerHybrid \<Rightarrow> ('stab, 'eng) QStabilizerHybrid" where
  "stabilizer_do C gates h = h\<lparr>stabilizer := map_option (fold (QStabilizer_apply C) gates) (stabilizer h)\<rparr>"

definition IsSeparableZ :: "('stab, 'eng) collaborators \<Rightarrow> nat \<Rightarrow> ('stab, 'eng) QStabilizerHybrid
    \<Rightarrow> bool \<times> ('stab, 'eng) QStabilizerHybrid" where
  "IsSeparableZ C target h =
     (case stabilizer h of
        None \<Rightarrow> (False, h)
      | Some st \<Rightarrow> (fst (QStabilizer_IsSeparableZ C target st),
                    h\<lparr>stabilizer := Some (snd (QStabilizer_IsSeparableZ C target st))\<rparr>))"

definition IsSeparableX :: "('stab, 'eng) collaborators \<Rightarrow> nat \<Rightarrow> ('stab, 'eng) QStabilizerHybrid
    \<Rightarrow> bool \<times> ('stab, 'eng) QStabilizerHybrid" where
  "IsSeparableX C target h =
     (case stabilizer h of
        None \<Rightarrow> (False, h)
      | Some st \<Rightarrow> (fst (QStabilizer_IsSeparableX C target st),
                    h\<lparr>stabilizer := Some (snd (QStabilizer_IsSeparableX C target st))\<rparr>))"

definition IsSeparableY :: "('stab, 'eng) collaborators \<Rightarrow> nat \<Rightarrow> ('stab, 'eng) QStabilizerHybrid
    \<Rightarrow> bool \<times> ('stab, 'eng) QStabilizerHybrid" where
  "IsSeparableY C target h =
     (case stabilizer h of
        None \<Rightarrow> (False, h)
      | Some st \<Rightarrow> (fst (QStabilizer_IsSeparableY C target st),
                    h\<lparr>stabilizer := Some (snd (QStabilizer_IsSeparableY C target st))\<rparr>))"

text \<open>\<^verbatim>\<open>SQRT1_2_R1\<close>, the square root of one half.\<close>

definition SQRT1_2_R1 :: real where
  "SQRT1_2_R1 = sqrt (1 / 2)"

text \<open>
  The last part of \<^verbatim>\<open>ApplySingleBit\<close>, from the creation of the new shard on: a matrix that
  matches none of the Clifford patterns is kept in the shard of its qubit, after a change
  of basis if the qubit is an eigenstate of X or Y.
\<close>

definition buffer_shard :: "('stab, 'eng) collaborators \<Rightarrow> complex list \<Rightarrow> bool \<Rightarrow> nat
    \<Rightarrow> ('stab, 'eng) QStabilizerHybrid \<Rightarrow> ('stab, 'eng) QStabilizerHybrid" where
  "buffer_shard C mtrx wasCached target h =
     (let shard = mtrx;
          (shard, h) =
            (if \<not> wasCached then
               let (sepZ, h) = IsSeparableZ C target h
               in if sepZ then (shard, h\<lparr>shardsEigenZ := (shardsEigenZ h)[target := True]\<rparr>)
                  else
                    let (sepX, h) = IsSeparableX C target h
                    in if sepX then
                         let nMtrx = [complex_of_real SQRT1_2_R1, complex_of_real SQRT1_2_R1,
                                      complex_of_real SQRT1_2_R1, - complex_of_real SQRT1_2_R1];
                             shard = shard_Compose C shard nMtrx;
                             h = stabilizer_do C [Stab_H target] h
                         in (shard, h\<lparr>shardsEigenZ := (shardsEigenZ h)[target := True]\<rparr>)
                       else
                         let (sepY, h) = IsSeparableY C target h
                         in if sepY then
                              let nMtrx = [complex_of_real SQRT1_2_R1, complex_of_real SQRT1_2_R1,
                                           Complex 0 SQRT1_2_R1, Complex 0 (- SQRT1_2_R1)];
                                  shard = shard_Compose C shard nMtrx;
                                  h = stabilizer_do C [Stab_IS target, Stab_H target] h
                              in (shard, h\<lparr>shardsEigenZ := (shardsEigenZ h)[target := True]\<rparr>)
                            else (shard, h\<lparr>shardsEigenZ := (shardsEigenZ h)[target := False]\<rparr>)
             else (shard, h))
      in if shardsEigenZ h ! target \<and> IS_NORM_0 C (shard ! 1) \<and> IS_NORM_0 C (shard ! 2) then h
         else if shardsEigenZ h ! target \<and> IS_NORM_0 C (shard ! 0) \<and> IS_NORM_0 C (shard ! 3) then
           stabilizer_do C [Stab_X target] h
         else h\<lparr>shards := (shards h)[target := Some shard]\<rparr>)"

text \<open>
  \<^verbatim>\<open>ApplySingleBit\<close>, \<^verbatim>\<open>ApplySinglePhase\<close> and \<^verbatim>\<open>ApplySingleInvert\<close> of the hybrid call one
  another: the last two hand a qubit with a buffered shard to the first, which takes the
  shard out and hands a diagonal or anti-diagonal product to one of them. The third is
  \<open>ApplySingleInvert_hybrid\<close> here, the pager's method having the same name.
  \<open>shard_Compose C lMtrx gate\<close> is the matrix of the shard after
  \<^verbatim>\<open>shard->Compose(lMtrx)\<close>. A target past the end of \<open>shards\<close> is outside the model: the
  call then returns the instance as it is.
\<close>

function ApplySingleBit :: "('stab, 'eng) collaborators \<Rightarrow> complex list \<Rightarrow> nat
    \<Rightarrow> ('stab, 'eng) QStabilizerHybrid \<Rightarrow> ('stab, 'eng) QStabilizerHybrid"
  and ApplySinglePhase :: "('stab, 'eng) collaborators \<Rightarrow> complex \<Rightarrow> complex \<Rightarrow> nat
    \<Rightarrow> ('stab, 'eng) QStabilizerHybrid \<Rightarrow> ('stab, 'eng) QStabilizerHybrid"
  and ApplySingleInvert_hybrid :: "('stab, 'eng) collaborators \<Rightarrow> complex \<Rightarrow> complex \<Rightarrow> nat
    \<Rightarrow> ('stab, 'eng) QStabilizerHybrid \<Rightarrow> ('stab, 'eng) QStabilizerHybrid"
where
  "ApplySingleBit C lMtrx target h =
     (if length (shards h) \<le> target then h
      else
        let wasCached = (shards h ! target \<noteq> None);
            mtrx = (case shards h ! target of
                      Some gate \<Rightarrow> shard_Compose C lMtrx gate
                    | None \<Rightarrow> lMtrx);
            h = (if wasCached then h\<lparr>shards := (shards h)[target := None]\<rparr> else h)
        in if IS_NORM_0 C (mtrx ! 1) \<and> IS_NORM_0 C (mtrx ! 2) then
             ApplySinglePhase C (mtrx ! 0) (mtrx ! 3) target h
           else if IS_NORM_0 C (mtrx ! 0) \<and> IS_NORM_0 C (mtrx ! 3) then
             ApplySingleInvert_hybrid C (mtrx ! 1) (mtrx ! 2) target h
           else if engine h \<noteq> None then
             h\<lparr>engine := map_option (engine_ApplySingleBit C mtrx target) (engine h)\<rparr>
           else if IS_SAME C (mtrx ! 0) (mtrx ! 1) \<and> IS_SAME C (mtrx ! 0) (mtrx ! 2)
                   \<and> IS_SAME C (mtrx ! 0) (- (mtrx ! 3)) then
             stabilizer_do C [Stab_H target] h
           else if IS_SAME C (mtrx ! 0) (mtrx ! 1) \<and> IS_SAME C (mtrx ! 0) (- (mtrx ! 2))
                   \<and> IS_SAME C (mtrx ! 0) (mtrx ! 3) then
             stabilizer_do C [Stab_ISqrtY target] h
           else if IS_SAME C (mtrx ! 0) (- (mtrx ! 1)) \<and> IS_SAME C (mtrx ! 0) (mtrx ! 2)
                   \<and> IS_SAME C (mtrx ! 0) (mtrx ! 3) then
             stabilizer_do C [Stab_SqrtY target] h
           else if IS_SAME C (mtrx ! 0) (mtrx ! 1) \<and> IS_SAME C (mtrx ! 0) (- \<i> * (mtrx ! 2))
                   \<and> IS_SAME C (mtrx ! 0) (\<i> * (mtrx ! 3)) then
             stabilizer_do C [Stab_H target, Stab_S target] h
           else if IS_SAME C (mtrx ! 0) (\<i> * (mtrx ! 1)) \<and> IS_SAME C (mtrx ! 0) (mtrx ! 2)
                   \<and> IS_SAME C (mtrx ! 0) (- \<i> * (mtrx ! 3)) then
             stabilizer_do C [Stab_IS target, Stab_H target] h
           else if IS_SAME C (mtrx ! 0) (- \<i> * (mtrx ! 1)) \<and> IS_SAME C (mtrx ! 0) (- \<i> * (mtrx ! 2))
                   \<and> IS_SAME C (mtrx ! 0) (mtrx ! 3) then
             stabilizer_do C [Stab_ISqrtX target] h
           else if IS_SAME C (mtrx ! 0) (\<i> * (mtrx ! 1)) \<and> IS_SAME C (mtrx ! 0) (\<i> * (mtrx ! 2))
                   \<and> IS_SAME C (mtrx ! 0) (mtrx ! 3) then
             stabilizer_do C [Stab_SqrtX target] h
           else if IS_SAME C (mtrx ! 0) (- (mtrx ! 1)) \<and> IS_SAME C (mtrx ! 0) (\<i> * (mtrx ! 2))
                   \<and> IS_SAME C (mtrx ! 0) (\<i> * (mtrx ! 3)) then
             stabilizer_do C [Stab_Y target, Stab_H target, Stab_S target] h
           else if IS_SAME C (mtrx ! 0) (- \<i> * (mtrx ! 1)) \<and> IS_SAME C (mtrx ! 0) (- (mtrx ! 2))
                   \<and> IS_SAME C (mtrx ! 0) (- \<i> * (mtrx ! 3)) then
             stabilizer_do C [Stab_IS target, Stab_H target, Stab_Y target] h
           else buffer_shard C mtrx wasCached target h)"
| "ApplySinglePhase C topLeft bottomRight target h =
     (if IsIdentity C [topLeft, 0, 0, bottomRight] False then h
      else if length (shards h) \<le> target then h
      else if shards h ! target \<noteq> None then
        ApplySingleBit C [topLeft, 0, 0, bottomRight] target h
      else if engine h \<noteq> None then
        h\<lparr>engine := map_option (engine_apply C (Eng_ApplySinglePhase topLeft bottomRight target))
                      (engine h)\<rparr>
      else if IS_SAME C topLeft bottomRight then h
      else if IS_SAME C topLeft (- bottomRight) then stabilizer_do C [Stab_Z target] h
      else
        let sTest = bottomRight / topLeft
        in if IS_SAME C sTest \<i> then stabilizer_do C [Stab_S target] h
           else if IS_SAME C sTest (- \<i>) then stabilizer_do C [Stab_IS target] h
           else
             let (sepZ, h) = IsSeparableZ C target h
             in if sepZ then h
                else h\<lparr>shards := (shards h)[target := Some [topLeft, 0, 0, bottomRight]]\<rparr>)"
| "ApplySingleInvert_hybrid C topRight bottomLeft target h =
     (if length (shards h) \<le> target then h
      else if shards h ! target \<noteq> None then
        ApplySingleBit C [0, topRight, bottomLeft, 0] target h
      else if engine h \<noteq> None then
        h\<lparr>engine := map_option (engine_apply C (Eng_ApplySingleInvert topRight bottomLeft target))
                      (engine h)\<rparr>
      else if IS_SAME C topRight bottomLeft then stabilizer_do C [Stab_X target] h
      else if IS_SAME C topRight (- bottomLeft) then stabilizer_do C [Stab_Y target] h
      else
        let sTest = topRight / bottomLeft
        in if IS_SAME C sTest \<i> then stabilizer_do C [Stab_X target, Stab_S target] h
           else if IS_SAME C sTest (- \<i>) then stabilizer_do C [Stab_X target, Stab_IS target] h
           else h\<lparr>shards := (shards h)[target := Some [0, topRight, bottomLeft, 0]]\<rparr>)"
  by pat_completeness auto
termination
proof (relation "measure (\<lambda>x. case x of
          Inl (C, lMtrx, target, h) \<Rightarrow>
            (if target < length (shards h) \<and> shards h ! target \<noteq> None then 3 else 2)
        | Inr (Inl (C, topLeft, bottomRight, target, h)) \<Rightarrow>
            (if target < length (shards h) \<and> shards h ! target \<noteq> None then 4 else 1)
        | Inr (Inr (C, topRight, bottomLeft, target, h)) \<Rightarrow>
            (if target < length (shards h) \<and> shards h ! target \<noteq> None then 4 else (1::nat)))")
qed auto

declare ApplySingleBit.simps [simp del] ApplySinglePhase.simps [simp del]
  ApplySingleInvert_hybrid.simps [simp del]

subsection \<open>Controlled single-qubit gates\<close>

text \<open>
  \<^verbatim>\<open>TrimControls(lControls, lControlLen, controls, anti)\<close> is the hybrid's own header method:
  it returns whether the gate can be skipped, and fills \<open>controls\<close>. \<open>lControls\<close> is the
  array of \<open>lControlLen\<close> controls, as a list.
\<close>

definition ApplyControlledSinglePhase :: "('stab, 'eng) collaborators \<Rightarrow> nat list \<Rightarrow> nat \<Rightarrow> complex \<Rightarrow> complex
    \<Rightarrow> ('stab, 'eng) QStabilizerHybrid \<Rightarrow> ('stab, 'eng) QStabilizerHybrid" where
  "ApplyControlledSinglePhase C lControls target topLeft bottomRight h =
     (let ((trimmed, controls), h) = TrimControls C lControls False h
      in if trimmed then h
         else if controls = [] then ApplySinglePhase C topLeft bottomRight target h
         else
           let h = (if 1 < length controls then SwitchToEngine C h else h);
               h = FlushIfBlocked C controls target h;
               via_engine = (\<lambda>h. h\<lparr>engine := map_option
                    (engine_apply C (Eng_ApplyControlledSinglePhase lControls target topLeft bottomRight))
                    (engine h)\<rparr>);
               control = controls ! 0
           in if engine h \<noteq> None then via_engine h
              else if IS_SAME C topLeft 1 \<and> IS_SAME C bottomRight 1 then h
              else if IS_SAME C topLeft 1 \<and> IS_SAME C bottomRight (- 1) then
                stabilizer_do C [Stab_CZ control target] h
              else if \<not> IS_SAME C topLeft 1 \<and> IS_SAME C topLeft (- 1) \<and> IS_SAME C bottomRight 1 then
                stabilizer_do C [Stab_X target, Stab_CZ control target, Stab_X target] h
              else if \<not> IS_SAME C topLeft 1 \<and> IS_SAME C topLeft (- 1) \<and> IS_SAME C bottomRight (- 1) then
                stabilizer_do C [Stab_CZ control target, Stab_X target, Stab_CZ control target,
                                 Stab_X target] h
              else via_engine (SwitchToEngine C h))"

definition ApplyControlledSingleInvert :: "('stab, 'eng) collaborators \<Rightarrow> nat list \<Rightarrow> nat \<Rightarrow> complex \<Rightarrow> complex
    \<Rightarrow> ('stab, 'eng) QStabilizerHybrid \<Rightarrow> ('stab, 'eng) QStabilizerHybrid" where
  "ApplyControlledSingleInvert C lControls target topRight bottomLeft h =
     (let ((trimmed, controls), h) = TrimControls C lControls False h
      in if trimmed then h
         else if controls = [] then ApplySingleInvert_hybrid C topRight bottomLeft target h
         else
           let h = (if 1 < length controls then SwitchToEngine C h else h);
               h = FlushIfBlocked C controls target h;
               via_engine = (\<lambda>h. h\<lparr>engine := map_option
                    (engine_apply C (Eng_ApplyControlledSingleInvert lControls target topRight bottomLeft))
                    (engine h)\<rparr>);
               control = controls ! 0
           in if engine h \<noteq> None then via_engine h
              else if IS_SAME C topRight 1 \<and> IS_SAME C bottomLeft 1 then
                stabilizer_do C [Stab_CNOT control target] h
              else if IS_SAME C topRight 1 \<and> IS_SAME C bottomLeft (- 1) then
                stabilizer_do C [Stab_CNOT control target, Stab_CZ control target] h
              else if IS_SAME C topRight (- 1) \<and> IS_SAME C bottomLeft 1 then
                stabilizer_do C [Stab_CZ control target, Stab_CNOT control target] h
              else if IS_SAME C topRight (- 1) \<and> IS_SAME C bottomLeft (- 1) then
                stabilizer_do C [Stab_CZ control target, Stab_CNOT control target,
                                 Stab_CZ control target] h
              else if IS_SAME C topRight (- \<i>) \<and> IS_SAME C bottomLeft \<i> then
                stabilizer_do C [Stab_CY control target] h
              else via_engine (SwitchToEngine C h))"

definition ApplyControlledSingleBit :: "('stab, 'eng) collaborators \<Rightarrow> nat list \<Rightarrow> nat \<Rightarrow> complex list
    \<Rightarrow> ('stab, 'eng) QStabilizerHybrid \<Rightarrow> ('stab, 'eng) QStabilizerHybrid" where
  "ApplyControlledSingleBit C lControls target mtrx h =
     (if IS_NORM_0 C (mtrx ! 1) \<and> IS_NORM_0 C (mtrx ! 2) then
        ApplyControlledSinglePhase C lControls target (mtrx ! 0) (mtrx ! 3) h
      else if IS_NORM_0 C (mtrx ! 0) \<and> IS_NORM_0 C (mtrx ! 3) then
        ApplyControlledSingleInvert C lControls target (mtrx ! 1) (mtrx ! 2) h
      else
        let ((trimmed, controls), h) = TrimControls C lControls False h
        in if trimmed then h
           else if controls = [] then ApplySingleBit C mtrx target h
           else
             let h = SwitchToEngine C h
             in h\<lparr>engine := map_option
                    (engine_apply C (Eng_ApplyControlledSingleBit lControls target mtrx)) (engine h)\<rparr>)"

definition ApplyAntiControlledSinglePhase :: "('stab, 'eng) collaborators \<Rightarrow> nat list \<Rightarrow> nat \<Rightarrow> complex
    \<Rightarrow> complex \<Rightarrow> ('stab, 'eng) QStabilizerHybrid \<Rightarrow> ('stab, 'eng) QStabilizerHybrid" where
  "ApplyAntiControlledSinglePhase C lControls target topLeft bottomRight h =
     (let ((trimmed, controls), h) = TrimControls C lControls True h
      in if trimmed then h
         else if controls = [] then ApplySinglePhase C topLeft bottomRight target h
         else
           let h = (if 1 < length controls then SwitchToEngine C h else h);
               h = FlushIfBlocked C controls target h;
               via_engine = (\<lambda>h. h\<lparr>engine := map_option
                    (engine_apply C (Eng_ApplyAntiControlledSinglePhase lControls target topLeft bottomRight))
                    (engine h)\<rparr>);
               control = controls ! 0
           in if engine h \<noteq> None then via_engine h
              else if IS_SAME C topLeft 1 \<and> IS_SAME C bottomRight 1 then h
              else if IS_SAME C topLeft 1 \<and> IS_SAME C bottomRight (- 1) then
                stabilizer_do C [Stab_X control, Stab_CZ control target, Stab_X control] h
              else if \<not> IS_SAME C topLeft 1 \<and> IS_SAME C topLeft (- 1) \<and> IS_SAME C bottomRight 1 then
                stabilizer_do C [Stab_X control, Stab_CNOT control target, Stab_CZ control target,
                                 Stab_CNOT control target, Stab_X control] h
              else if \<not> IS_SAME C topLeft 1 \<and> IS_SAME C topLeft (- 1) \<and> IS_SAME C bottomRight (- 1) then
                stabilizer_do C [Stab_X control, Stab_CZ control target, Stab_CNOT control target,
                                 Stab_CZ control target, Stab_CNOT control target, Stab_X control] h
              else via_engine (SwitchToEngine C h))"

definition ApplyAntiControlledSingleInvert :: "('stab, 'eng) collaborators \<Rightarrow> nat list \<Rightarrow> nat \<Rightarrow> complex
    \<Rightarrow> complex \<Rightarrow> ('stab, 'eng) QStabilizerHybrid \<Rightarrow> ('stab, 'eng) QStabilizerHybrid" where
  "ApplyAntiControlledSingleInvert C lControls target topRight bottomLeft h =
     (let ((trimmed, controls), h) = TrimControls C lControls True h
      in if trimmed then h
         else if controls = [] then ApplySingleInvert_hybrid C topRight bottomLeft target h
         else
           let h = FlushIfBlocked C controls target h;
               h = (if 1 < length controls then SwitchToEngine C h else h);
               via_engine = (\<lambda>h. h\<lparr>engine := map_option
                    (engine_apply C (Eng_ApplyAntiControlledSingleInvert lControls target topRight bottomLeft))
                    (engine h)\<rparr>);
               control = controls ! 0
           in if engine h \<noteq> None then via_engine h
              else if IS_SAME C topRight 1 \<and> IS_SAME C bottomLeft 1 then
                stabilizer_do C [Stab_X control, Stab_CNOT control target, Stab_X control] h
              else if IS_SAME C topRight 1 \<and> IS_SAME C bottomLeft (- 1) then
                stabilizer_do C [Stab_X control, Stab_CNOT control target, Stab_CZ control target,
                                 Stab_X control] h
              else if IS_SAME C topRight (- 1) \<and> IS_SAME C bottomLeft 1 then
                stabilizer_do C [Stab_X control, Stab_CZ control target, Stab_CNOT control target,
                                 Stab_X control] h
              else if IS_SAME C topRight (- 1) \<and> IS_SAME C bottomLeft (- 1) then
                stabilizer_do C [Stab_X control, Stab_CZ control target, Stab_CNOT control target,
                                 Stab_CZ control target, Stab_X control] h
              else if IS_SAME C topRight (- \<i>) \<and> IS_SAME C bottomLeft \<i> then
                stabilizer_do C [Stab_X control, Stab_CY control target, Stab_X control] h
              else via_engine (SwitchToEngine C h))"

definition ApplyAntiControlledSingleBit :: "('stab, 'eng) collaborators \<Rightarrow> nat list \<Rightarrow> nat \<Rightarrow> complex list
    \<Rightarrow> ('stab, 'eng) QStabilizerHybrid \<Rightarrow> ('stab, 'eng) QStabilizerHybrid" where
  "ApplyAntiControlledSingleBit C lControls target mtrx h =
     (if IS_NORM_0 C (mtrx ! 1) \<and> IS_NORM_0 C (mtrx ! 2) then
        ApplyAntiControlledSinglePhase C lControls target (mtrx ! 0) (mtrx ! 3) h
      else if IS_NORM_0 C (mtrx ! 0) \<and> IS_NORM_0 C (mtrx ! 3) then
        ApplyAntiControlledSingleInvert C lControls target (mtrx ! 1) (mtrx ! 2) h
      else
        let ((trimmed, controls), h) = TrimControls C lControls False h
        in if trimmed then h
           else if controls = [] then ApplySingleBit C mtrx target h
           else
             let h = SwitchToEngine C h
             in h\<lparr>engine := map_option
                    (engine_apply C (Eng_ApplyAntiControlledSingleBit lControls target mtrx)) (engine h)\<rparr>)"

subsection \<open>Amplitudes, probabilities and measurement\<close>

text \<open>\<^verbatim>\<open>std::polar(ONE_R1, theta)\<close>.\<close>

definition polar1 :: "real \<Rightarrow> complex" where
  "polar1 theta = Complex (cos theta) (sin theta)"

definition SetQuantumState :: "('stab, 'eng) collaborators \<Rightarrow> complex list \<Rightarrow> ('stab, 'eng) QStabilizerHybrid
    \<Rightarrow> ('stab, 'eng) QStabilizerHybrid" where
  "SetQuantumState C inputState h =
     (let h = DumpBuffers h
      in if qubitCount h = 1 then
           let h = h\<lparr>engine := None\<rparr>;
               h = (case stabilizer h of
                      Some st \<Rightarrow> h\<lparr>stabilizer := Some (QStabilizer_SetPermutation C 0 st)\<rparr>
                    | None \<Rightarrow> h\<lparr>stabilizer := Some (MakeStabilizer C 0 h)\<rparr>);
               prob = norm2 (inputState ! 1);
               sqrtProb = sqrt prob;
               sqrt1MinProb = sqrt (1 - prob);
               phase0 = polar1 (arg (inputState ! 0));
               phase1 = polar1 (arg (inputState ! 1));
               mtrx = [complex_of_real sqrt1MinProb * phase0, complex_of_real sqrtProb * phase0,
                       complex_of_real sqrtProb * phase1, - complex_of_real sqrt1MinProb * phase1]
           in ApplySingleBit C mtrx 0 h
         else
           let h = SwitchToEngine C h
           in h\<lparr>engine := map_option (engine_SetQuantumState C inputState) (engine h)\<rparr>)"

text \<open>\<^verbatim>\<open>GetProbs(outputProbs)\<close> returns the array that it fills, and the instance.\<close>

definition GetProbs :: "('stab, 'eng) collaborators \<Rightarrow> ('stab, 'eng) QStabilizerHybrid
    \<Rightarrow> real list \<times> ('stab, 'eng) QStabilizerHybrid" where
  "GetProbs C h =
     (let h = FlushBuffers C h
      in case stabilizer h of
           Some st \<Rightarrow> (fst (QStabilizer_GetProbs C st),
                       h\<lparr>stabilizer := Some (snd (QStabilizer_GetProbs C st))\<rparr>)
         | None \<Rightarrow>
             (case engine h of
                Some e \<Rightarrow> (fst (engine_GetProbs C e), h\<lparr>engine := Some (snd (engine_GetProbs C e))\<rparr>)
              | None \<Rightarrow> ([], h)))"

text \<open>
  \<^verbatim>\<open>MAll\<close>. The first loop empties the shards and stops at the first one that has to be
  flushed; the second measures qubit after qubit on the stabilizer. The call ends with the
  hybrid's \<^verbatim>\<open>SetPermutation\<close>, a header method.
\<close>

fun MAll_shards :: "('stab, 'eng) collaborators \<Rightarrow> nat list \<Rightarrow> ('stab, 'eng) QStabilizerHybrid
    \<Rightarrow> ('stab, 'eng) QStabilizerHybrid" where
  "MAll_shards C [] h = h"
| "MAll_shards C (i # rest) h =
     (case shards h ! i of
        None \<Rightarrow> MAll_shards C rest h
      | Some shard \<Rightarrow>
          if shard_IsInvert C shard then
            MAll_shards C rest ((stabilizer_do C [Stab_X i] h)\<lparr>shards := (shards h)[i := None]\<rparr>)
          else if shard_IsPhase C shard then
            MAll_shards C rest (h\<lparr>shards := (shards h)[i := None]\<rparr>)
          else if shardsEigenZ h ! i then
            MAll_shards C rest (CollapseSeparableShard C i h)
          else FlushBuffers C h)"

fun MAll_stabilizer :: "('stab, 'eng) collaborators \<Rightarrow> nat list \<Rightarrow> nat \<times> 'stab \<Rightarrow> nat \<times> 'stab" where
  "MAll_stabilizer C [] (toRet, st) = (toRet, st)"
| "MAll_stabilizer C (i # rest) (toRet, st) =
     MAll_stabilizer C rest
       (if fst (QStabilizer_M C i st) then toRet OR push_bit i 1 else toRet,
        snd (QStabilizer_M C i st))"

definition MAll :: "('stab, 'eng) collaborators \<Rightarrow> ('stab, 'eng) QStabilizerHybrid
    \<Rightarrow> nat \<times> ('stab, 'eng) QStabilizerHybrid" where
  "MAll C h =
     (let h = (if stabilizer h \<noteq> None then MAll_shards C [0..<qubitCount h] h else h);
          (toRet, h) =
            (case stabilizer h of
               Some st \<Rightarrow>
                 (fst (MAll_stabilizer C [0..<qubitCount h] (0, st)),
                  h\<lparr>stabilizer := Some (snd (MAll_stabilizer C [0..<qubitCount h] (0, st)))\<rparr>)
             | None \<Rightarrow>
                 (case engine h of
                    Some e \<Rightarrow> (fst (engine_MAll C e), h\<lparr>engine := Some (snd (engine_MAll C e))\<rparr>)
                  | None \<Rightarrow> (0, h)))
      in (toRet, SetPermutation C toRet h))"

subsection \<open>Sequences of calls\<close>

text \<open>
  The methods of the hybrid that its source file defines and that change the instance, as
  calls. \<open>Call_Decompose_into start src\<close> is a call \<^verbatim>\<open>src->Decompose(start, dest)\<close> seen from
  the destination.
\<close>

datatype ('stab, 'eng) hybrid_call =
    Call_SwitchToEngine
  | Call_CCNOT nat nat nat
  | Call_CH nat nat
  | Call_CS nat nat
  | Call_CIS nat nat
  | Call_CCZ nat nat nat
  | Call_CCY nat nat nat
  | Call_Decompose nat "('stab, 'eng) QStabilizerHybrid"
  | Call_Decompose_into nat "('stab, 'eng) QStabilizerHybrid"
  | Call_Dispose nat nat
  | Call_Dispose_perm nat nat nat
  | Call_SetQuantumState "complex list"
  | Call_GetProbs
  | Call_ApplySingleBit "complex list" nat
  | Call_ApplySinglePhase complex complex nat
  | Call_ApplySingleInvert complex complex nat
  | Call_ApplyControlledSingleBit "nat list" nat "complex list"
  | Call_ApplyControlledSinglePhase "nat list" nat complex complex
  | Call_ApplyControlledSingleInvert "nat list" nat complex complex
  | Call_ApplyAntiControlledSingleBit "nat list" nat "complex list"
  | Call_ApplyAntiControlledSinglePhase "nat list" nat complex complex
  | Call_ApplyAntiControlledSingleInvert "nat list" nat complex complex
  | Call_MAll

fun issue :: "('stab, 'eng) collaborators \<Rightarrow> ('stab, 'eng) hybrid_call
    \<Rightarrow> ('stab, 'eng) QStabilizerHybrid \<Rightarrow> ('stab, 'eng) QStabilizerHybrid" where
  "issue C Call_SwitchToEngine h = SwitchToEngine C h"
| "issue C (Call_CCNOT c1 c2 t) h = CCNOT C c1 c2 t h"
| "issue C (Call_CH c t) h = CH C c t h"
| "issue C (Call_CS c t) h = CS C c t h"
| "issue C (Call_CIS c t) h = CIS C c t h"
| "issue C (Call_CCZ c1 c2 t) h = CCZ C c1 c2 t h"
| "issue C (Call_CCY c1 c2 t) h = CCY C c1 c2 t h"
| "issue C (Call_Decompose start dest) h = fst (Decompose C start dest h)"
| "issue C (Call_Decompose_into start src) h = snd (Decompose C start h src)"
| "issue C (Call_Dispose start len) h = Dispose C start len h"
| "issue C (Call_Dispose_perm start len perm) h = Dispose_perm C start len perm h"
| "issue C (Call_SetQuantumState inputState) h = SetQuantumState C inputState h"
| "issue C Call_GetProbs h = snd (GetProbs C h)"
| "issue C (Call_ApplySingleBit mtrx t) h = ApplySingleBit C mtrx t h"
| "issue C (Call_ApplySinglePhase topLeft bottomRight t) h = ApplySinglePhase C topLeft bottomRight t h"
| "issue C (Call_ApplySingleInvert topRight bottomLeft t) h = ApplySingleInvert_hybrid C topRight bottomLeft t h"
| "issue C (Call_ApplyControlledSingleBit cs t mtrx) h = ApplyControlledSingleBit C cs t mtrx h"
| "issue C (Call_ApplyControlledSinglePhase cs t topLeft bottomRight) h = ApplyControlledSinglePhase C cs t topLeft bottomRight h"
| "issue C (Call_ApplyControlledSingleInvert cs t topRight bottomLeft) h = ApplyControlledSingleInvert C cs t topRight bottomLeft h"
| "issue C (Call_ApplyAntiControlledSingleBit cs t mtrx) h = ApplyAntiControlledSingleBit C cs t mtrx h"
| "issue C (Call_ApplyAntiControlledSinglePhase cs t topLeft bottomRight) h
     = ApplyAntiControlledSinglePhase C cs t topLeft bottomRight h"
| "issue C (Call_ApplyAntiControlledSingleInvert cs t topRight bottomLeft) h
     = ApplyAntiControlledSingleInvert C cs t topRight bottomLeft h"
| "issue C Call_MAll h = snd (MAll C h)"

definition issue_all :: "('stab, 'eng) collaborators \<Rightarrow> ('stab, 'eng) hybrid_call list
    \<Rightarrow> ('stab, 'eng) QStabilizerHybrid \<Rightarrow> ('stab, 'eng) QStabilizerHybrid" where
  "issue_all C calls h = fold (issue C) calls h"

text \<open>
  The calls after which an instance in engine mode need not be in engine mode any more:
  decomposing or disposing of the whole register, being the destination of a
  \<^verbatim>\<open>Decompose\<close> whose source is not in engine mode, setting the state of a one-qubit
  register, and \<^verbatim>\<open>MAll\<close>, which ends in the header's \<^verbatim>\<open>SetPermutation\<close>.
\<close>

fun resets :: "('stab, 'eng) hybrid_call \<Rightarrow> ('stab, 'eng) QStabilizerHybrid \<Rightarrow> bool" where
  "resets (Call_Decompose start dest) h = (qubitCount dest = qubitCount h)"
| "resets (Call_Decompose_into start src) h = (mode_of src \<noteq> Some EngineMode)"
| "resets (Call_Dispose start len) h = (len = qubitCount h)"
| "resets (Call_Dispose_perm start len perm) h = (len = qubitCount h)"
| "resets (Call_SetQuantumState inputState) h = (qubitCount h = 1)"
| "resets Call_MAll h = True"
| "resets _ h = False"

fun no_reset :: "('stab, 'eng) collaborators \<Rightarrow> ('stab, 'eng) hybrid_call list
    \<Rightarrow> ('stab, 'eng) QStabilizerHybrid \<Rightarrow> bool" where
  "no_reset C [] h = True"
| "no_reset C (c # calls) h = (\<not> resets c h \<and> no_reset C calls (issue C c h))"

text \<open>
  The six controlled single-qubit gates pass the instance through the header's
  \<^verbatim>\<open>TrimControls\<close> and \<^verbatim>\<open>FlushIfBlocked\<close>. What these two do to an instance in engine mode is
  not in the sources; \<open>header_keeps_engine\<close> says that they leave it in engine mode.
\<close>

fun through_header :: "('stab, 'eng) hybrid_call \<Rightarrow> bool" where
  "through_header (Call_ApplyControlledSingleBit cs t mtrx) = True"
| "through_header (Call_ApplyControlledSinglePhase cs t topLeft bottomRight) = True"
| "through_header (Call_ApplyControlledSingleInvert cs t topRight bottomLeft) = True"
| "through_header (Call_ApplyAntiControlledSingleBit cs t mtrx) = True"
| "through_header (Call_ApplyAntiControlledSinglePhase cs t topLeft bottomRight) = True"
| "through_header (Call_ApplyAntiControlledSingleInvert cs t topRight bottomLeft) = True"
| "through_header _ = False"

definition header_keeps_engine :: "('stab, 'eng) collaborators \<Rightarrow> bool" where
  "header_keeps_engine C \<longleftrightarrow>
     (\<forall>cs anti h. mode_of h = Some EngineMode
        \<longrightarrow> mode_of (snd (TrimControls C cs anti h)) = Some EngineMode)
     \<and> (\<forall>cs t h. mode_of h = Some EngineMode
        \<longrightarrow> mode_of (FlushIfBlocked C cs t h) = Some EngineMode)"

text \<open>
  A control whose probability is neither exactly 0 nor exactly 1, as \<^verbatim>\<open>Prob\<close> reports it.
\<close>

definition indefinite :: "('stab, 'eng) collaborators \<Rightarrow> nat \<Rightarrow> ('stab, 'eng) QStabilizerHybrid \<Rightarrow> bool" where
  "indefinite C q h \<longleftrightarrow> fst (Prob C q h) \<noteq> 0 \<and> fst (Prob C q h) \<noteq> 1"

subsection \<open>A small instance\<close>

text \<open>
  A small instance of the collaborators, for concrete runs: a stabilizer and an engine that
  only ever hold one basis state, kept as its index. Gates that only change phases, or that
  would leave the basis, do nothing to it, and every qubit is separable in Z.
\<close>

definition basis_Dispose :: "nat \<Rightarrow> nat \<Rightarrow> nat \<Rightarrow> nat" where
  "basis_Dispose start len perm = take_bit start perm + push_bit start (drop_bit (start + len) perm)"

definition basis_Decompose :: "nat \<Rightarrow> nat \<Rightarrow> nat \<Rightarrow> nat \<times> nat" where
  "basis_Decompose start perm dest = (take_bit start perm, drop_bit start perm)"

definition basis_gate :: "(nat \<Rightarrow> nat) \<Rightarrow> (nat, nat) QStabilizerHybrid \<Rightarrow> (nat, nat) QStabilizerHybrid" where
  "basis_gate f h = h\<lparr>stabilizer := map_option f (stabilizer h), engine := map_option f (engine h)\<rparr>"

definition basis_perm :: "(nat, nat) QStabilizerHybrid \<Rightarrow> nat" where
  "basis_perm h = (case stabilizer h of Some st \<Rightarrow> st | None \<Rightarrow> (case engine h of Some e \<Rightarrow> e | None \<Rightarrow> 0))"

fun basis_apply :: "stabilizer_gate \<Rightarrow> nat \<Rightarrow> nat" where
  "basis_apply (Stab_X t) perm = flip_bit t perm"
| "basis_apply (Stab_Y t) perm = flip_bit t perm"
| "basis_apply (Stab_CNOT c t) perm = (if bit perm c then flip_bit t perm else perm)"
| "basis_apply (Stab_CY c t) perm = (if bit perm c then flip_bit t perm else perm)"
| "basis_apply _ perm = perm"

definition basis_collaborators :: "(nat, nat) collaborators" where
  "basis_collaborators =
     \<lparr>QStabilizer_new = (\<lambda>n perm. perm),
      QStabilizer_GetQuantumState = (\<lambda>st e. st),
      QStabilizer_CanDecomposeDispose = (\<lambda>start len st. True),
      QStabilizer_Dispose = basis_Dispose,
      QStabilizer_Decompose = basis_Decompose,
      QStabilizer_SetPermutation = (\<lambda>perm st. perm),
      QStabilizer_apply = basis_apply,
      QStabilizer_IsSeparableZ = (\<lambda>t st. (True, st)),
      QStabilizer_IsSeparableX = (\<lambda>t st. (False, st)),
      QStabilizer_IsSeparableY = (\<lambda>t st. (False, st)),
      QStabilizer_M = (\<lambda>t st. (bit st t, st)),
      QStabilizer_GetProbs = (\<lambda>st. ([], st)),
      CreateQuantumInterface = (\<lambda>n perm. perm),
      engine_ApplySingleBit = (\<lambda>mtrx target e. e),
      engine_Dispose = basis_Dispose,
      engine_Decompose = basis_Decompose,
      engine_Dispose_perm = (\<lambda>start len perm. basis_Dispose start len),
      engine_SetQuantumState = (\<lambda>inputState e. e),
      engine_CCNOT = (\<lambda>c1 c2 t e. if bit e c1 \<and> bit e c2 then flip_bit t e else e),
      engine_CCZ = (\<lambda>c1 c2 t e. e),
      engine_CCY = (\<lambda>c1 c2 t e. if bit e c1 \<and> bit e c2 then flip_bit t e else e),
      engine_apply = (\<lambda>g e. e),
      engine_GetProbs = (\<lambda>e. ([], e)),
      engine_MAll = (\<lambda>e. (e, e)),
      shard_Compose = (\<lambda>lMtrx gate.
        [lMtrx ! 0 * gate ! 0 + lMtrx ! 1 * gate ! 2, lMtrx ! 0 * gate ! 1 + lMtrx ! 1 * gate ! 3,
         lMtrx ! 2 * gate ! 0 + lMtrx ! 3 * gate ! 2, lMtrx ! 2 * gate ! 1 + lMtrx ! 3 * gate ! 3]),
      shard_IsInvert = (\<lambda>gate. gate ! 0 = 0 \<and> gate ! 3 = 0),
      shard_IsPhase = (\<lambda>gate. gate ! 1 = 0 \<and> gate ! 2 = 0),
      IS_SAME = (\<lambda>a b. a = b),
      amplitudeFloor = 0,
      IsIdentity = (\<lambda>mtrx isControlled. mtrx = [1, 0, 0, 1]),
      Prob = (\<lambda>q h. (if bit (basis_perm h) q then 1 else 0, h)),
      CNOT = (\<lambda>c t h. if bit (basis_perm h) c then basis_gate (flip_bit t) h else h),
      CZ = (\<lambda>c t h. h),
      CY = (\<lambda>c t h. if bit (basis_perm h) c then basis_gate (flip_bit t) h else h),
      H_gate = (\<lambda>t h. h),
      S_gate = (\<lambda>t h. h),
      IS_gate = (\<lambda>t h. h),
      TrimControls = (\<lambda>cs anti h.
        ((\<exists>c \<in> set cs. bit (basis_perm h) c = anti,
          filter (\<lambda>c. False) cs), h)),
      FlushIfBlocked = (\<lambda>cs t h. h),
      CollapseSeparableShard = (\<lambda>i h. h\<lparr>shards := (shards h)[i := None]\<rparr>),
      SetPermutation = (\<lambda>perm h.
        (DumpBuffers h)\<lparr>engine := None, stabilizer := Some perm\<rparr>)\<rparr>"

section \<open>Properties\<close>

subsection \<open>Which indices a launch visits\<close>

lemma next_in_stride:
  fixes k :: nat
  assumes "lcv \<le> k" and "k mod N = lcv mod N" and "k \<noteq> lcv"
  shows "lcv + N \<le> k"
proof -
  have "N dvd (k - lcv)" using assms(1,2) by (metis mod_eq_dvd_iff_nat)
  moreover have "0 < k - lcv" using assms by simp
  ultimately have "N \<le> k - lcv" by (simp add: dvd_imp_le)
  then show ?thesis using assms(1) by simp
qed

text \<open>One work item runs the body on the indices of its residue class, each once.\<close>

lemma work_item_visits:
  "0 < N \<Longrightarrow> \<exists>ys. distinct ys \<and> set ys = {k. lcv \<le> k \<and> k < maxI \<and> k mod N = lcv mod N}
      \<and> work_item lcv N maxI body s = fold body ys s"
proof (induction lcv N maxI body s rule: work_item.induct)
  case (1 lcv N maxI body s)
  show ?case
  proof (cases "lcv < maxI")
    case True
    from 1 True obtain ys where ys: "distinct ys"
      "set ys = {k. lcv + N \<le> k \<and> k < maxI \<and> k mod N = (lcv + N) mod N}"
      "work_item (lcv + N) N maxI body (body lcv s) = fold body ys (body lcv s)"
      by blast
    have "lcv \<notin> set ys" using ys(2) 1(2) by simp
    then have d: "distinct (lcv # ys)" using ys(1) by simp
    have s: "set (lcv # ys) = {k. lcv \<le> k \<and> k < maxI \<and> k mod N = lcv mod N}"
      using ys(2) True 1(2) next_in_stride by (auto simp: le_eq_less_or_eq)
    have "work_item lcv N maxI body s = fold body (lcv # ys) s"
      using True 1(2) ys(3) by (subst work_item.simps) simp
    with d s show ?thesis by blast
  next
    case False
    then have "work_item lcv N maxI body s = fold body [] s"
      by (subst work_item.simps) simp
    moreover have "{k. lcv \<le> k \<and> k < maxI \<and> k mod N = lcv mod N} = set []"
      using False by auto
    ultimately show ?thesis by (metis distinct.simps(1))
  qed
qed

lemma enqueue_prefix:
  assumes "0 < N"
  shows "n \<le> N \<Longrightarrow> \<exists>ys. distinct ys \<and> set ys = {k. k < maxI \<and> k mod N < n}
      \<and> fold (\<lambda>ID. work_item ID N maxI body) [0..<n] s = fold body ys s"
proof (induction n)
  case 0
  show ?case by (rule exI [of _ "[]"]) simp
next
  case (Suc n)
  then obtain ys where ys: "distinct ys" "set ys = {k. k < maxI \<and> k mod N < n}"
    "fold (\<lambda>ID. work_item ID N maxI body) [0..<n] s = fold body ys s" by auto
  from work_item_visits [OF assms, of n maxI body "fold body ys s"]
  obtain zs where zs: "distinct zs" "set zs = {k. n \<le> k \<and> k < maxI \<and> k mod N = n mod N}"
    "work_item n N maxI body (fold body ys s) = fold body zs (fold body ys s)" by blast
  have nN: "n mod N = n" using Suc.prems by simp
  have zs': "set zs = {k. k < maxI \<and> k mod N = n}"
    using zs(2) nN by (auto intro: order_trans [OF _ mod_less_eq_dividend])
  have "distinct (ys @ zs)" using ys(1,2) zs(1) zs' by auto
  moreover have "set (ys @ zs) = {k. k < maxI \<and> k mod N < Suc n}"
    using ys(2) zs' by (auto simp: less_Suc_eq)
  moreover have "fold (\<lambda>ID. work_item ID N maxI body) [0..<Suc n] s = fold body (ys @ zs) s"
    using ys(3) zs(3) by simp
  ultimately show ?case by blast
qed

text \<open>A launch runs the body once on every index below \<open>maxI\<close>, in some order.\<close>

lemma enqueue_visits:
  assumes "0 < ngc"
  shows "\<exists>ys. distinct ys \<and> set ys = {..<maxI}
      \<and> enqueueNDRangeKernel ngc (\<lambda>ID Nthreads. work_item ID Nthreads maxI body) s = fold body ys s"
proof -
  from enqueue_prefix [OF assms, of ngc maxI body s]
  obtain ys where ys: "distinct ys" "set ys = {k. k < maxI \<and> k mod ngc < ngc}"
    "fold (\<lambda>ID. work_item ID ngc maxI body) [0..<ngc] s = fold body ys s" by auto
  have "set ys = {..<maxI}" using ys(2) assms by auto
  with ys show ?thesis unfolding enqueueNDRangeKernel_def by blast
qed

subsection \<open>Loops that write one element per index\<close>

lemma fold_write_length [simp]:
  "length (fold (\<lambda>lcv s. s[lcv := f lcv]) xs s) = length s"
  by (induction xs arbitrary: s) auto

lemma fold_write_nth:
  "i < length s \<Longrightarrow> fold (\<lambda>lcv s. s[lcv := f lcv]) xs s ! i = (if i \<in> set xs then f i else s ! i)"
proof (induction xs arbitrary: s)
  case Nil
  then show ?case by simp
next
  case (Cons x xs)
  then show ?case by (cases "i = x") (auto simp: nth_list_update)
qed

lemma fold_update_self_length [simp]:
  "length (fold (\<lambda>lcv sv. sv[lcv := g lcv (sv ! lcv)]) ys sv) = length sv"
  by (induction ys arbitrary: sv) auto

lemma fold_update_self_nth:
  "distinct ys \<Longrightarrow> i < length sv \<Longrightarrow>
   fold (\<lambda>lcv sv. sv[lcv := g lcv (sv ! lcv)]) ys sv ! i = (if i \<in> set ys then g i (sv ! i) else sv ! i)"
proof (induction ys arbitrary: sv)
  case Nil
  then show ?case by simp
next
  case (Cons y ys)
  then show ?case by (cases "i = y") (auto simp: nth_list_update)
qed

lemma fold_scatter_length [simp]:
  "length (fold (\<lambda>lcv nsv. nsv[d lcv := f lcv]) ys nsv) = length nsv"
  by (induction ys arbitrary: nsv) auto

lemma fold_scatter_untouched:
  "j \<notin> d ` set ys \<Longrightarrow> fold (\<lambda>lcv nsv. nsv[d lcv := f lcv]) ys nsv ! j = nsv ! j"
  by (induction ys arbitrary: nsv) auto

lemma fold_scatter_nth:
  "distinct ys \<Longrightarrow> inj_on d (set ys) \<Longrightarrow> y \<in> set ys \<Longrightarrow> d y < length nsv \<Longrightarrow>
   fold (\<lambda>lcv nsv. nsv[d lcv := f lcv]) ys nsv ! (d y) = f y"
proof (induction ys arbitrary: nsv)
  case Nil
  then show ?case by simp
next
  case (Cons a ys)
  show ?case
  proof (cases "y \<in> set ys")
    case True
    with Cons show ?thesis by (auto simp: inj_on_def)
  next
    case False
    with Cons.prems have ya: "y = a" by simp
    have "d a \<notin> d ` set ys"
      using Cons.prems(1,2) by (auto simp: inj_on_def)
    then have "fold (\<lambda>lcv nsv. nsv[d lcv := f lcv]) ys (nsv[d a := f a]) ! (d a) = (nsv[d a := f a]) ! (d a)"
      by (rule fold_scatter_untouched)
    with ya Cons.prems(4) show ?thesis by simp
  qed
qed

lemma par_for_write_nth:
  "i < hi \<Longrightarrow> hi \<le> length s \<Longrightarrow> par_for 0 hi (\<lambda>lcv s. s[lcv := f lcv]) s ! i = f i"
  unfolding par_for_def by (simp add: fold_write_nth)

lemma par_for_write_length [simp]:
  "length (par_for lo hi (\<lambda>lcv s. s[lcv := f lcv]) s) = length s"
  unfolding par_for_def by simp

lemma upt_0_2: "[0..<2] = [0, 1]"
  by (simp add: upt_rec)

lemma upt_0_4: "[0..<4] = [0, 1, 2, 3]"
  by (simp add: upt_rec)

lemma replicate_2: "replicate 2 x = [x, x]"
  by (simp add: numeral_2_eq_2)

subsection \<open>Compose\<close>

lemma length_AllocStateVec [simp]: "length (AllocStateVec junk n) = n"
  by (simp add: AllocStateVec_def)

lemma qubitCount_NormalizeState [simp]: "qubitCount (NormalizeState e) = qubitCount e"
  by (simp add: NormalizeState_def Let_def)

lemma compose_unfold:
  "compose ID Nthreads stateVec1 stateVec2 [nMaxQPower, n, startMask, endMask]
   = work_item ID Nthreads nMaxQPower
       (\<lambda>lcv nsv. nsv[lcv := zmul (stateVec1 ! (lcv AND startMask))
                                     (stateVec2 ! (drop_bit n (lcv AND endMask)))])"
  by (rule ext) (simp add: compose_def)

lemma compose_launch_nth:
  assumes "0 < ngc" and "i < nMaxQPower" and "nMaxQPower \<le> length nStateVec"
  shows "enqueueNDRangeKernel ngc
           (\<lambda>ID Nthreads. compose ID Nthreads stateVec1 stateVec2 [nMaxQPower, n, startMask, endMask])
           nStateVec ! i
         = zmul (stateVec1 ! (i AND startMask)) (stateVec2 ! (drop_bit n (i AND endMask)))"
proof -
  let ?body = "\<lambda>lcv nsv. nsv[lcv := zmul (stateVec1 ! (lcv AND startMask))
                                     (stateVec2 ! (drop_bit n (lcv AND endMask)))]"
  from enqueue_visits [OF assms(1), of nMaxQPower ?body nStateVec]
  obtain ys where ys: "set ys = {..<nMaxQPower}"
    "enqueueNDRangeKernel ngc (\<lambda>ID Nthreads. work_item ID Nthreads nMaxQPower ?body) nStateVec
       = fold ?body ys nStateVec" by blast
  have "enqueueNDRangeKernel ngc
           (\<lambda>ID Nthreads. compose ID Nthreads stateVec1 stateVec2 [nMaxQPower, n, startMask, endMask])
           nStateVec = fold ?body ys nStateVec"
    using ys(2) by (simp only: compose_unfold)
  moreover have "i < length nStateVec" "i \<in> set ys" using assms ys(1) by auto
  ultimately show ?thesis by (simp add: fold_write_nth)
qed

text \<open>
  C5. Compose of engine \<open>a\<close> (\<open>n_a\<close> qubits) with engine \<open>b\<close> (\<open>n_b\<close> qubits) yields,
  at every index \<open>i\<close> below \<open>2 ^ (n_a + n_b)\<close>, the amplitude
  \<open>a[i & startMask] * b[(i & endMask) >> n_a]\<close>, with \<open>startMask = 2 ^ n_a - 1\<close> and
  \<open>endMask = (2 ^ n_b - 1) << n_a\<close>. This holds for \<^verbatim>\<open>QEngineCPU::Cohere\<close>, where \<open>a\<close> and
  \<open>b\<close> are the operands' amplitude arrays at the time of the loop (the call first
  normalises an operand whose running norm is not 1), and for a launch of the \<^verbatim>\<open>compose\<close>
  kernel with the arguments new maxQPower, \<open>n_a\<close>, startMask and endMask, with the kernel's
  \<open>zmul\<close> as the product. The CPU code computes its powers of two by shifting an \<^verbatim>\<open>int\<close>,
  hence the bound of 30 qubits.
\<close>

theorem Compose_amplitudes:
  fixes a b :: QEngineCPU and stateVec1 stateVec2 nStateVec :: "('r::{plus,minus,times}) cmplx list"
  assumes "qubitCount a + qubitCount b \<le> 30"
    and "i < 2 ^ (qubitCount a + qubitCount b)"
    and "0 < ngc"
    and "2 ^ (qubitCount a + qubitCount b) \<le> length nStateVec"
  shows "(\<exists>a' b'. Cohere junk a b = Some (qubitCount a, a', b')
            \<and> qubitCount a' = qubitCount a + qubitCount b
            \<and> length (stateVec a') = 2 ^ (qubitCount a + qubitCount b)
            \<and> stateVec a' ! i
                = stateVec (if runningNorm a \<noteq> 1 then NormalizeState a else a)
                    ! (i AND (2 ^ qubitCount a - 1))
                  * stateVec (if runningNorm b \<noteq> 1 then NormalizeState b else b)
                    ! (drop_bit (qubitCount a) (i AND push_bit (qubitCount a) (2 ^ qubitCount b - 1))))
       \<and> enqueueNDRangeKernel ngc
            (\<lambda>ID Nthreads. compose ID Nthreads stateVec1 stateVec2
               [2 ^ (qubitCount a + qubitCount b), qubitCount a, 2 ^ qubitCount a - 1,
                push_bit (qubitCount a) (2 ^ qubitCount b - 1)])
            nStateVec ! i
          = zmul (stateVec1 ! (i AND (2 ^ qubitCount a - 1)))
                 (stateVec2 ! (drop_bit (qubitCount a) (i AND push_bit (qubitCount a) (2 ^ qubitCount b - 1))))"
proof (rule conjI)
  show "enqueueNDRangeKernel ngc
            (\<lambda>ID Nthreads. compose ID Nthreads stateVec1 stateVec2
               [2 ^ (qubitCount a + qubitCount b), qubitCount a, 2 ^ qubitCount a - 1,
                push_bit (qubitCount a) (2 ^ qubitCount b - 1)])
            nStateVec ! i
          = zmul (stateVec1 ! (i AND (2 ^ qubitCount a - 1)))
                 (stateVec2 ! (drop_bit (qubitCount a) (i AND push_bit (qubitCount a) (2 ^ qubitCount b - 1))))"
    using assms by (intro compose_launch_nth) auto
next
  show "\<exists>a' b'. Cohere junk a b = Some (qubitCount a, a', b')
            \<and> qubitCount a' = qubitCount a + qubitCount b
            \<and> length (stateVec a') = 2 ^ (qubitCount a + qubitCount b)
            \<and> stateVec a' ! i
                = stateVec (if runningNorm a \<noteq> 1 then NormalizeState a else a)
                    ! (i AND (2 ^ qubitCount a - 1))
                  * stateVec (if runningNorm b \<noteq> 1 then NormalizeState b else b)
                    ! (drop_bit (qubitCount a) (i AND push_bit (qubitCount a) (2 ^ qubitCount b - 1)))"
    using assms(1,2)
    by (simp add: Cohere_def Let_def SetQubitCount_def ResetStateVec_def par_for_write_nth push_bit_eq_mult)
qed

theorem Compose_amplitudes_witness:
  "(\<exists>a' b'. Cohere (\<lambda>n. 0)
        \<lparr>qubitCount = 1, maxQPower = 2, runningNorm = 1, stateVec = [3 / 5, 4 / 5]\<rparr>
        \<lparr>qubitCount = 1, maxQPower = 2, runningNorm = 1, stateVec = [0, \<i>]\<rparr> = Some (1, a', b')
      \<and> qubitCount a' = 2 \<and> length (stateVec a') = 4 \<and> stateVec a' ! 3 = 4 / 5 * \<i>)
   \<and> enqueueNDRangeKernel 2
        (\<lambda>ID Nthreads. compose ID Nthreads [(3, 0), (4, 0)] [(0, 0), (0, 1 :: int)] [4, 1, 1, 2])
        [(0, 0), (0, 0), (0, 0), (0, 0)] ! 3 = (0, 4)"
proof -
  let ?A = "\<lparr>qubitCount = 1, maxQPower = 2, runningNorm = 1, stateVec = [3 / 5, 4 / 5]\<rparr> :: QEngineCPU"
  let ?B = "\<lparr>qubitCount = 1, maxQPower = 2, runningNorm = 1, stateVec = [0, \<i>]\<rparr> :: QEngineCPU"
  let ?nsv = "[(0, 0), (0, 0), (0, 0), (0, 0)] :: int cmplx list"
  have h: "qubitCount ?A + qubitCount ?B \<le> 30" "3 < (2::nat) ^ (qubitCount ?A + qubitCount ?B)"
    "0 < (2::nat)" "2 ^ (qubitCount ?A + qubitCount ?B) \<le> length ?nsv"
    by simp_all
  note t = Compose_amplitudes [OF h, of "\<lambda>n. 0" "[(3, 0), (4, 0)]" "[(0, 0), (0, 1)]"]
  from t obtain a' b' where c: "Cohere (\<lambda>n. 0) ?A ?B = Some (qubitCount ?A, a', b')"
    "qubitCount a' = qubitCount ?A + qubitCount ?B"
    "length (stateVec a') = 2 ^ (qubitCount ?A + qubitCount ?B)"
    "stateVec a' ! 3 = stateVec (if runningNorm ?A \<noteq> 1 then NormalizeState ?A else ?A)
                    ! (3 AND (2 ^ qubitCount ?A - 1))
                  * stateVec (if runningNorm ?B \<noteq> 1 then NormalizeState ?B else ?B)
                    ! (drop_bit (qubitCount ?A) (3 AND push_bit (qubitCount ?A) (2 ^ qubitCount ?B - 1)))"
    by blast
  have 1: "Cohere (\<lambda>n. 0) ?A ?B = Some (1, a', b')" using c(1) by simp
  have 2: "qubitCount a' = 2" using c(2) by simp
  have 3: "length (stateVec a') = 4" using c(3) by simp
  have 4: "stateVec a' ! 3 = 4 / 5 * \<i>" using c(4) by (simp add: drop_bit_eq_div)
  from t have "enqueueNDRangeKernel 2
        (\<lambda>ID Nthreads. compose ID Nthreads [(3, 0), (4, 0)] [(0, 0), (0, 1 :: int)] [4, 1, 1, 2])
        ?nsv ! 3 = zmul ([(3, 0), (4, 0)] ! 1) ([(0, 0), (0, 1)] ! 1)"
    by (simp add: drop_bit_eq_div)
  then have 5: "enqueueNDRangeKernel 2
        (\<lambda>ID Nthreads. compose ID Nthreads [(3, 0), (4, 0)] [(0, 0), (0, 1 :: int)] [4, 1, 1, 2])
        ?nsv ! 3 = (0, 4)"
    by (simp add: zmul_def)
  from 1 2 3 4 5 show ?thesis by blast
qed

subsection \<open>The pager's invert gate\<close>

text \<open>
  C7. \<^verbatim>\<open>QPager::ApplySingleInvert\<close> should act on the paged state as the gate with the
  matrix \<open>[[0, topRight], [bottomLeft, 0]]\<close> acts on the whole state. It does not: the test
  that \<^verbatim>\<open>ApplySinglePhase\<close> uses to skip the identity, \<open>topLeft = bottomRight\<close>, appears
  here as \<open>topRight = - bottomLeft\<close>, and an anti-diagonal matrix is never the identity.
  A two-qubit pager of two one-qubit pages in the state \<open>|00\<rangle>\<close>, asked for the gate with
  \<open>topRight = 1\<close> and \<open>bottomLeft = - 1\<close> on qubit 1, returns unchanged, whereas the gate
  maps \<open>|00\<rangle>\<close> to \<open>- |10\<rangle>\<close>.
\<close>

theorem pager_invert_skipped:
  "concat (qPages (ApplySingleInvert 1 (- 1) 1
      \<lparr>qubitCount = 2, maxQPower = 4, qubitsPerPage = 1, qPageCount = 2, randGlobalPhase = False,
       qPages = [[1, 0], [0, 0]]\<rparr>)) = [1, 0, 0, 0]
   \<and> engine_ApplySingleInvert 1 (- 1) 1 (concat [[1, 0], [0, 0]]) = [0, 0, - 1, 0]"
  by (simp add: ApplySingleInvert_def engine_ApplySingleInvert_def pow2_def upt_0_4 bit_iff_odd)

text \<open>
  Away from the early return the pager and the gate agree, here for two anti-diagonal
  matrices on an arbitrary state.
\<close>

lemma pager_invert_X:
  "concat (qPages (ApplySingleInvert 1 1 1
      \<lparr>qubitCount = 2, maxQPower = 4, qubitsPerPage = 1, qPageCount = 2, randGlobalPhase = False,
       qPages = [[a, b], [c, d]]\<rparr>)) = [c, d, a, b]
   \<and> engine_ApplySingleInvert 1 1 1 (concat [[a, b], [c, d]]) = [c, d, a, b]"
  by (simp add: ApplySingleInvert_def engine_ApplySingleInvert_def pow2_def upt_0_4 bit_iff_odd
      Let_def drop_bit_eq_div)

lemma pager_invert_phases:
  "concat (qPages (ApplySingleInvert (- \<i>) \<i> 1
      \<lparr>qubitCount = 2, maxQPower = 4, qubitsPerPage = 1, qPageCount = 2, randGlobalPhase = False,
       qPages = [[a, b], [c, d]]\<rparr>)) = [- \<i> * c, - \<i> * d, \<i> * a, \<i> * b]
   \<and> engine_ApplySingleInvert (- \<i>) \<i> 1 (concat [[a, b], [c, d]])
       = [- \<i> * c, - \<i> * d, \<i> * a, \<i> * b]"
  by (simp add: ApplySingleInvert_def engine_ApplySingleInvert_def engine_ApplySinglePhase_def
      pow2_def upt_0_2 upt_0_4 bit_iff_odd Let_def drop_bit_eq_div complex_eq_iff)

subsection \<open>The mode of the hybrid\<close>

lemma mode_of_Engine_iff: "mode_of h = Some EngineMode \<longleftrightarrow> engine h \<noteq> None \<and> stabilizer h = None"
  by (auto simp: mode_of_def split: option.splits)

lemma mode_of_Stabilizer_iff: "mode_of h = Some StabilizerMode \<longleftrightarrow> stabilizer h \<noteq> None \<and> engine h = None"
  by (auto simp: mode_of_def split: option.splits)

lemma FlushBuffers_fold_fields:
  "engine h \<noteq> None \<Longrightarrow>
   engine (fold (\<lambda>i h. case shards h ! i of
                    None \<Rightarrow> h
                  | Some gate \<Rightarrow>
                      h\<lparr>engine := map_option (engine_ApplySingleBit C gate i) (engine h),
                        shards := (shards h)[i := None]\<rparr>) xs h) \<noteq> None"
  "stabilizer (fold (\<lambda>i h. case shards h ! i of
                    None \<Rightarrow> h
                  | Some gate \<Rightarrow>
                      h\<lparr>engine := map_option (engine_ApplySingleBit C gate i) (engine h),
                        shards := (shards h)[i := None]\<rparr>) xs h) = stabilizer h"
  "qubitCount (fold (\<lambda>i h. case shards h ! i of
                    None \<Rightarrow> h
                  | Some gate \<Rightarrow>
                      h\<lparr>engine := map_option (engine_ApplySingleBit C gate i) (engine h),
                        shards := (shards h)[i := None]\<rparr>) xs h) = qubitCount h"
  by (induction xs arbitrary: h) (auto split: option.splits)

lemma engine_FlushBuffers: "engine h \<noteq> None \<Longrightarrow> engine (FlushBuffers C h) \<noteq> None"
  unfolding FlushBuffers_def by (rule FlushBuffers_fold_fields)

lemma stabilizer_FlushBuffers [simp]: "stabilizer (FlushBuffers C h) = stabilizer h"
  unfolding FlushBuffers_def by (rule FlushBuffers_fold_fields)

lemma qubitCount_FlushBuffers [simp]: "qubitCount (FlushBuffers C h) = qubitCount h"
  unfolding FlushBuffers_def by (rule FlushBuffers_fold_fields)

lemma engine_SwitchToEngine: "engine (SwitchToEngine C h) \<noteq> None"
proof (cases "engine h = None")
  case True
  have "engine (FlushBuffers C (h\<lparr>engine := Some e, stabilizer := None\<rparr>)) \<noteq> None" for e
    by (rule engine_FlushBuffers) simp
  with True show ?thesis by (simp add: SwitchToEngine_def Let_def)
next
  case False
  then show ?thesis by (simp add: SwitchToEngine_def)
qed

lemma stabilizer_SwitchToEngine: "engine h = None \<Longrightarrow> stabilizer (SwitchToEngine C h) = None"
  by (simp add: SwitchToEngine_def Let_def)

lemma qubitCount_SwitchToEngine [simp]: "qubitCount (SwitchToEngine C h) = qubitCount h"
  by (simp add: SwitchToEngine_def Let_def)

lemma SwitchToEngine_idem: "engine h \<noteq> None \<Longrightarrow> SwitchToEngine C h = h"
  by (simp add: SwitchToEngine_def)

lemma mode_of_SwitchToEngine:
  "mode_of h \<noteq> None \<Longrightarrow> mode_of (SwitchToEngine C h) = Some EngineMode"
proof (cases "engine h = None")
  case True
  then show ?thesis
    using engine_SwitchToEngine [of C h] stabilizer_SwitchToEngine [of h C]
    by (simp add: mode_of_Engine_iff)
next
  case False
  assume "mode_of h \<noteq> None"
  with False have "mode_of h = Some EngineMode"
    by (auto simp: mode_of_def split: option.splits)
  with False show ?thesis by (simp add: SwitchToEngine_idem)
qed

lemma mode_of_engine_update:
  "mode_of h = Some EngineMode \<Longrightarrow> mode_of (h\<lparr>engine := map_option f (engine h)\<rparr>) = Some EngineMode"
  by (auto simp: mode_of_Engine_iff)

lemma mode_of_DumpBuffers [simp]: "mode_of (DumpBuffers h) = mode_of h"
  by (simp add: mode_of_def DumpBuffers_def)

lemma qubitCount_DumpBuffers [simp]: "qubitCount (DumpBuffers h) = qubitCount h"
  by (simp add: DumpBuffers_def)
subsection \<open>Doubly-controlled gates in stabilizer mode\<close>



subsection \<open>Decohere followed by Cohere\<close>

lemma sqrt_9_25: "sqrt (9 / 25) = 3 / 5"
  by (rule real_sqrt_unique) (simp_all add: power2_eq_square)

lemma sqrt_16_25: "sqrt (16 / 25) = 4 / 5"
  by (rule real_sqrt_unique) (simp_all add: power2_eq_square)

text \<open>
  The two-qubit product state \<open>(3/5 |0\<rangle> + 4/5 \<i> |1\<rangle>) \<otimes> |0\<rangle>\<close>, from which qubit 1 is
  split off. The second loop stores its angles in \<open>remainderStateAngle\<close>: the angle \<open>\<pi>/2\<close>
  of the remainder is overwritten with 0, and the destination gets the phase that happened
  to be in the unwritten \<open>partStateAngle\<close>.
\<close>

lemma Decohere_example:
  "Decohere junk junkP junkR 1 1
     \<lparr>qubitCount = 1, maxQPower = 2, runningNorm = 1, stateVec = [1, 0]\<rparr>
     \<lparr>qubitCount = 2, maxQPower = 4, runningNorm = 1, stateVec = [3 / 5, Complex 0 (4 / 5), 0, 0]\<rparr>
   = Some (\<lparr>qubitCount = 1, maxQPower = 2, runningNorm = 1, stateVec = [3 / 5, 4 / 5]\<rparr>,
           \<lparr>qubitCount = 1, maxQPower = 2, runningNorm = 1,
            stateVec = [Complex (cos (junkP 0)) (sin (junkP 0)), 0]\<rparr>)"
proof -
  define s0 :: QEngineCPU
    where "s0 = \<lparr>qubitCount = 2, maxQPower = 4, runningNorm = 1, stateVec = [3 / 5, Complex 0 (4 / 5), 0, 0]\<rparr>"
  define d0 :: QEngineCPU
    where "d0 = \<lparr>qubitCount = 1, maxQPower = 2, runningNorm = 1, stateVec = [1, 0]\<rparr>"
  have step1: "par_for 0 2 (remainder_loop (Suc 0) (Suc 0) 2 (stateVec s0))
       \<lparr>partStateProb = [0, 0], remainderStateProb = [0, 0],
        partStateAngle = [p0, p1], remainderStateAngle = [r0, r1]\<rparr>
     = \<lparr>partStateProb = [0, 0], remainderStateProb = [9 / 25, 16 / 25],
        partStateAngle = [p0, p1], remainderStateAngle = [0, pi / 2]\<rparr>" for p0 p1 r0 r1
    by (simp add: par_for_def upt_0_2 remainder_loop_def s0_def norm2_def arg_def atan2_def
        push_bit_eq_mult Let_def)
  have step2: "par_for 0 2 (part_loop (Suc 0) (Suc 0) 2 (stateVec s0))
       \<lparr>partStateProb = [0, 0], remainderStateProb = [9 / 25, 16 / 25],
        partStateAngle = [p0, p1], remainderStateAngle = [0, pi / 2]\<rparr>
     = \<lparr>partStateProb = [1, 0], remainderStateProb = [9 / 25, 16 / 25],
        partStateAngle = [p0, p1], remainderStateAngle = [0, 0]\<rparr>" for p0 p1
    by (simp add: par_for_def upt_0_2 part_loop_def s0_def norm2_def arg_def atan2_def
        push_bit_eq_mult Let_def)
  have q: "qubitCount s0 = 2" "runningNorm s0 = 1" "maxQPower s0 = 4" "stateVec d0 = [1, 0]"
    by (simp_all add: s0_def d0_def)
  have "Decohere junk junkP junkR 1 1 d0 s0 =
     Some (\<lparr>qubitCount = 1, maxQPower = 2, runningNorm = 1, stateVec = [3 / 5, 4 / 5]\<rparr>,
           \<lparr>qubitCount = 1, maxQPower = 2, runningNorm = 1,
            stateVec = [Complex (cos (junkP 0)) (sin (junkP 0)), 0]\<rparr>)"
    unfolding Decohere_def
    apply (simp add: q Let_def push_bit_eq_mult upt_0_2 replicate_2 step1 step2)
    apply (simp add: s0_def d0_def SetQubitCount_def ResetStateVec_def AllocStateVec_def par_for_def
        upt_0_2 sqrt_9_25 sqrt_16_25 push_bit_eq_mult complex_eq_iff)
    done
  then show ?thesis unfolding s0_def d0_def .
qed

lemma Cohere_example:
  "Cohere junk' \<lparr>qubitCount = 1, maxQPower = 2, runningNorm = 1, stateVec = [3 / 5, 4 / 5]\<rparr>
         \<lparr>qubitCount = 1, maxQPower = 2, runningNorm = 1, stateVec = [w, 0]\<rparr>
   = Some (1, \<lparr>qubitCount = 2, maxQPower = 4, runningNorm = 1,
               stateVec = [3 / 5 * w, 4 / 5 * w, 0, 0]\<rparr>,
           \<lparr>qubitCount = 1, maxQPower = 2, runningNorm = 1, stateVec = [w, 0]\<rparr>)"
  by (simp add: Cohere_def Let_def push_bit_eq_mult par_for_def upt_0_4 AllocStateVec_def
      SetQubitCount_def ResetStateVec_def drop_bit_eq_div)

text \<open>
  C1. \<^verbatim>\<open>Decohere\<close> of a range followed by \<^verbatim>\<open>Cohere\<close> of the destination should return a
  separable state. It does not: on the state \<open>[3/5, 4/5 \<i>, 0, 0]\<close>, which is separable
  across qubit 1, the two calls succeed and return a state vector that differs from the
  original one, whatever the uninitialised memory held. The recomposed vector is
  \<open>[3/5 w, 4/5 w, 0, 0]\<close> for a phase \<open>w\<close>: the relative phase \<open>\<i>\<close> is lost.
\<close>

theorem Decohere_Cohere_loses_phase:
  "\<exists>this' d' a b.
     Decohere junk junkP junkR 1 1
       \<lparr>qubitCount = 1, maxQPower = 2, runningNorm = 1, stateVec = [1, 0]\<rparr>
       \<lparr>qubitCount = 2, maxQPower = 4, runningNorm = 1, stateVec = [3 / 5, Complex 0 (4 / 5), 0, 0]\<rparr>
       = Some (this', d')
     \<and> Cohere junk' this' d' = Some (1, a, b)
     \<and> stateVec a \<noteq> [3 / 5, Complex 0 (4 / 5), 0, 0]"
proof -
  let ?w = "Complex (cos (junkP 0)) (sin (junkP 0))"
  have "[3 / 5 * ?w, 4 / 5 * ?w, 0, 0] \<noteq> [3 / 5, Complex 0 (4 / 5), 0, 0]"
  proof
    assume eq: "[3 / 5 * ?w, 4 / 5 * ?w, 0, 0] = [3 / 5, Complex 0 (4 / 5), 0, 0]"
    have "3 / 5 * ?w = 3 / 5" and "4 / 5 * ?w = Complex 0 (4 / 5)"
      using eq by (simp_all only: list.inject)
    then have "Re (3 / 5 * ?w) = Re (3 / 5)" and "Re (4 / 5 * ?w) = Re (Complex 0 (4 / 5))"
      by (simp_all only:)
    then have "cos (junkP 0) = 1" and "cos (junkP 0) = 0"
      by simp_all
    then show False by simp
  qed
  then show ?thesis
    using Decohere_example [of junk junkP junkR] Cohere_example [of junk' ?w]
    by (intro exI conjI) auto
qed

subsection \<open>The parity rotation\<close>

lemma finite_bits_nat: "finite {n. bit (p::nat) n}"
proof (rule finite_subset)
  show "{n. bit p n} \<subseteq> {..<p}"
  proof
    fix n assume "n \<in> {n. bit p n}"
    then have "odd (p div 2 ^ n)" by (simp add: bit_iff_odd)
    then have "p div 2 ^ n \<noteq> 0" by (rule contrapos_nn) simp
    then have "2 ^ n \<le> p" by (simp add: div_eq_0_iff not_less)
    then have "n < p" using less_exp [of n] by linarith
    then show "n \<in> {..<p}" by simp
  qed
qed simp

lemma bits_rec: "{n. bit (p::nat) n} = (if odd p then {0} else {}) \<union> Suc ` {n. bit (p div 2) n}"
proof (rule set_eqI)
  fix n show "n \<in> {n. bit p n} \<longleftrightarrow> n \<in> (if odd p then {0} else {}) \<union> Suc ` {n. bit (p div 2) n}"
    by (cases n) (auto simp: bit_0 bit_Suc)
qed

lemma popcount_rec: "card {n. bit (p::nat) n} = of_bool (odd p) + card {n. bit (p div 2) n}"
proof -
  have f: "finite (Suc ` {n. bit (p div 2) n})" by (simp add: finite_bits_nat)
  have c: "card (Suc ` {n. bit (p div 2) n}) = card {n. bit (p div 2) n}"
    by (simp add: card_image)
  show ?thesis
    by (subst bits_rec) (auto simp: c f card_insert_if)
qed

text \<open>Clearing the least significant set bit takes one off the number of set bits.\<close>

lemma popcount_clear_lsb:
  "p \<noteq> 0 \<Longrightarrow> card {n. bit (p AND (p - 1)) n} + 1 = card {n. bit (p::nat) n}"
proof (induction p rule: less_induct)
  case (less p)
  show ?case
  proof (cases "odd p")
    case True
    then have "(p - 1) div 2 = p div 2" "even (p - 1)" by (auto elim!: oddE)
    then have "p AND (p - 1) = 2 * (p div 2)"
      by (subst and_nat_rec) simp
    then have "card {n. bit (p AND (p - 1)) n} = card {n. bit (p div 2) n}"
      by (subst popcount_rec) simp
    then show ?thesis using True by (subst (2) popcount_rec) simp
  next
    case False
    with less.prems have m: "p div 2 \<noteq> 0" "p div 2 < p" by (auto elim!: evenE)
    from False less.prems have "odd (p - 1)" "(p - 1) div 2 = p div 2 - 1"
      by (auto elim!: evenE)
    then have "p AND (p - 1) = 2 * ((p div 2) AND (p div 2 - 1))"
      using False by (subst and_nat_rec) simp
    then have "card {n. bit (p AND (p - 1)) n} = card {n. bit ((p div 2) AND (p div 2 - 1)) n}"
      by (subst popcount_rec) simp
    also have "\<dots> + 1 = card {n. bit (p div 2) n}"
      using less.IH [OF m(2) m(1)] .
    finally show ?thesis using False by (subst (2) popcount_rec) simp
  qed
qed

text \<open>So the kernel's inner loop counts the set bits.\<close>

lemma clear_lsb_loop_popcount: "clear_lsb_loop c perm = c + card {n. bit perm n}"
proof (induction c perm rule: clear_lsb_loop.induct)
  case (1 c perm)
  show ?case
  proof (cases "perm = 0")
    case True
    have "{n. bit (0::nat) n} = {}" by (simp add: Collect_empty_eq_bot)
    then have "card {n. bit (0::nat) n} = 0" by (simp only: card.empty)
    moreover have "clear_lsb_loop c 0 = c" by (subst clear_lsb_loop.simps) simp
    ultimately show ?thesis using True by (simp only: add_0_right)
  next
    case False
    then have "clear_lsb_loop c perm = clear_lsb_loop (c + 1) (perm AND (perm - 1))"
      by (subst clear_lsb_loop.simps) simp
    also have "\<dots> = c + 1 + card {n. bit (perm AND (perm - 1)) n}"
      using 1 False by simp
    also have "\<dots> = c + card {n. bit perm n}"
      using popcount_clear_lsb [OF False] by simp
    finally show ?thesis .
  qed
qed

lemma and_1_odd: "((c::nat) mod 2 = Suc 0) = odd c"
  by presburger

lemma uniformparityrz_unfold:
  "uniformparityrz ID Nthreads [maxI, qMask] [phaseFac, phaseFacAdj]
   = work_item ID Nthreads maxI
       (\<lambda>lcv sv. sv[lcv := zmul (sv ! lcv)
            (if odd (card {n. bit (lcv AND qMask) n}) then phaseFac else phaseFacAdj)])"
  by (rule ext) (simp add: uniformparityrz_def Let_def clear_lsb_loop_popcount and_1_odd)

lemma uniformparityrz_launch:
  assumes "0 < ngc"
  shows "length (enqueueNDRangeKernel ngc
           (\<lambda>ID Nthreads. uniformparityrz ID Nthreads [maxI, qMask] [phaseFac, phaseFacAdj]) sv0)
         = length sv0"
    and "i < length sv0 \<Longrightarrow>
         enqueueNDRangeKernel ngc
           (\<lambda>ID Nthreads. uniformparityrz ID Nthreads [maxI, qMask] [phaseFac, phaseFacAdj]) sv0 ! i
         = (if i < maxI
            then zmul (sv0 ! i)
                   (if odd (card {n. bit (i AND qMask) n}) then phaseFac else phaseFacAdj)
            else sv0 ! i)"
proof -
  let ?g = "\<lambda>lcv a. zmul a (if odd (card {n. bit (lcv AND qMask) n}) then phaseFac else phaseFacAdj)"
  let ?body = "\<lambda>lcv sv. sv[lcv := ?g lcv (sv ! lcv)]"
  from enqueue_visits [OF assms, of maxI ?body sv0]
  obtain ys where ys: "distinct ys" "set ys = {..<maxI}"
    "enqueueNDRangeKernel ngc (\<lambda>ID Nthreads. work_item ID Nthreads maxI ?body) sv0
       = fold ?body ys sv0" by blast
  have eq: "enqueueNDRangeKernel ngc
           (\<lambda>ID Nthreads. uniformparityrz ID Nthreads [maxI, qMask] [phaseFac, phaseFacAdj]) sv0
        = fold ?body ys sv0"
    using ys(3) by (simp only: uniformparityrz_unfold)
  show "length (enqueueNDRangeKernel ngc
           (\<lambda>ID Nthreads. uniformparityrz ID Nthreads [maxI, qMask] [phaseFac, phaseFacAdj]) sv0)
         = length sv0"
    unfolding eq by (rule fold_update_self_length)
  show "enqueueNDRangeKernel ngc
           (\<lambda>ID Nthreads. uniformparityrz ID Nthreads [maxI, qMask] [phaseFac, phaseFacAdj]) sv0 ! i
         = (if i < maxI
            then zmul (sv0 ! i)
                   (if odd (card {n. bit (i AND qMask) n}) then phaseFac else phaseFacAdj)
            else sv0 ! i)" if "i < length sv0"
    unfolding eq using fold_update_self_nth [OF ys(1) that, of ?g] ys(2) by simp
qed

text \<open>Without controls the controlled kernel is the plain one.\<close>

lemma cuniformparityrz_no_controls:
  "cuniformparityrz ID Nthreads [maxI, qMask, 0, 0] cmplx_ptr qPowers sv0
   = uniformparityrz ID Nthreads [maxI, qMask] cmplx_ptr sv0"
  by (simp add: cuniformparityrz_def uniformparityrz_def Let_def)

lemma cmplx_value_zmul: "cmplx_value (zmul a b) = cmplx_value a * cmplx_value b"
  by (simp add: cmplx_value_def zmul_def complex_eq_iff)

lemma cmplx_value_phase:
  "cmplx_value (cos angle, sin angle) = exp (\<i> * complex_of_real angle)"
  "cmplx_value (cos angle, - sin angle) = exp (\<i> * complex_of_real (- angle))"
proof -
  have e: "exp (\<i> * complex_of_real a) = cis a" for a by (rule cis_conv_exp [symmetric])
  show "cmplx_value (cos angle, sin angle) = exp (\<i> * complex_of_real angle)"
    by (simp only: e) (simp add: cmplx_value_def complex_eq_iff)
  show "cmplx_value (cos angle, - sin angle) = exp (\<i> * complex_of_real (- angle))"
    by (simp only: e) (simp add: cmplx_value_def complex_eq_iff)
qed

text \<open>
  C6. \<^verbatim>\<open>UniformParityRZ(mask, angle)\<close> multiplies the amplitude at every index \<open>i\<close> by
  \<open>e^{i angle}\<close> if \<open>i AND mask\<close> has an odd number of set bits and by \<open>e^{- i angle}\<close> if it has
  an even number, keeps the length of the state vector, and changes no other field of the
  engine. The engine's \<open>maxQPower\<close> is the length of its state vector.
\<close>

theorem UniformParityRZ_amplitudes:
  assumes "0 < ngc" and "maxQPower e = length (stateVec e)"
  shows "length (stateVec (UniformParityRZ ngc qMask angle e)) = length (stateVec e)
       \<and> (\<forall>i < length (stateVec e).
            cmplx_value (stateVec (UniformParityRZ ngc qMask angle e) ! i)
            = cmplx_value (stateVec e ! i)
              * exp (\<i> * complex_of_real
                      (if odd (card {n. bit (i AND qMask) n}) then angle else - angle)))
       \<and> UniformParityRZ ngc qMask angle e
           = e\<lparr>stateVec := stateVec (UniformParityRZ ngc qMask angle e)\<rparr>"
proof (intro conjI allI impI)
  let ?k = "\<lambda>ID Nthreads. uniformparityrz ID Nthreads [maxQPower e, qMask]
              [(cos angle, sin angle), (cos angle, - sin angle)]"
  have sv: "stateVec (UniformParityRZ ngc qMask angle e)
            = enqueueNDRangeKernel ngc ?k (stateVec e)"
    by (simp add: UniformParityRZ_def Let_def)
  show "length (stateVec (UniformParityRZ ngc qMask angle e)) = length (stateVec e)"
    unfolding sv by (rule uniformparityrz_launch(1) [OF assms(1)])
  show "cmplx_value (stateVec (UniformParityRZ ngc qMask angle e) ! i)
            = cmplx_value (stateVec e ! i)
              * exp (\<i> * complex_of_real
                      (if odd (card {n. bit (i AND qMask) n}) then angle else - angle))"
    if "i < length (stateVec e)" for i
  proof -
    have "stateVec (UniformParityRZ ngc qMask angle e) ! i
          = zmul (stateVec e ! i)
              (if odd (card {n. bit (i AND qMask) n})
               then (cos angle, sin angle) else (cos angle, - sin angle))"
      unfolding sv using uniformparityrz_launch(2) [OF assms(1) that] that assms(2) by simp
    then show ?thesis
      by (simp only: cmplx_value_zmul cmplx_value_phase if_distrib [of cmplx_value]
          if_distrib [of "\<lambda>a. exp (\<i> * complex_of_real a)"])
  qed
  show "UniformParityRZ ngc qMask angle e
           = e\<lparr>stateVec := stateVec (UniformParityRZ ngc qMask angle e)\<rparr>"
    by (simp add: UniformParityRZ_def Let_def)
qed

theorem UniformParityRZ_amplitudes_witness:
  "length (stateVec (UniformParityRZ 2 1 (pi / 2)
       \<lparr>qubitCount = 1, maxQPower = 2, runningNorm = 1, stateVec = [(1, 0), (0, 1)]\<rparr>)) = 2
   \<and> cmplx_value (stateVec (UniformParityRZ 2 1 (pi / 2)
       \<lparr>qubitCount = 1, maxQPower = 2, runningNorm = 1, stateVec = [(1, 0), (0, 1)]\<rparr>) ! 0) = - \<i>
   \<and> cmplx_value (stateVec (UniformParityRZ 2 1 (pi / 2)
       \<lparr>qubitCount = 1, maxQPower = 2, runningNorm = 1, stateVec = [(1, 0), (0, 1)]\<rparr>) ! 1) = - 1"
proof -
  let ?e = "\<lparr>qubitCount = 1, maxQPower = 2, runningNorm = 1, stateVec = [(1, 0), (0, 1)]\<rparr>
            :: real cmplx QEngine"
  have h: "0 < (2::nat)" "maxQPower ?e = length (stateVec ?e)" by simp_all
  note t = UniformParityRZ_amplitudes [OF h, of 1 "pi / 2"]
  have p0: "card {n. bit (0 AND (1::nat)) n} = 0" by simp
  have "{n. bit (1 AND (1::nat)) n} = {0}" by (auto simp: bit_Suc_0_iff)
  then have p1: "card {n. bit (1 AND (1::nat)) n} = 1" by simp
  have e: "exp (\<i> * complex_of_real a) = cis a" for a by (rule cis_conv_exp [symmetric])
  have ex: "exp (\<i> * complex_of_real (pi / 2)) = \<i>" "exp (\<i> * complex_of_real (- (pi / 2))) = - \<i>"
    by (simp_all only: e) (simp_all add: complex_eq_iff)
  from t have 1: "length (stateVec (UniformParityRZ 2 1 (pi / 2) ?e)) = 2" by simp
  from t have a: "\<forall>i < length (stateVec ?e).
            cmplx_value (stateVec (UniformParityRZ 2 1 (pi / 2) ?e) ! i)
            = cmplx_value (stateVec ?e ! i)
              * exp (\<i> * complex_of_real
                      (if odd (card {n. bit (i AND 1) n}) then pi / 2 else - (pi / 2)))"
    by blast
  have l: "0 < length (stateVec ?e)" "1 < length (stateVec ?e)" by simp_all
  from a l(1) have f0: "cmplx_value (stateVec (UniformParityRZ 2 1 (pi / 2) ?e) ! 0)
      = cmplx_value (stateVec ?e ! 0)
        * exp (\<i> * complex_of_real
                (if odd (card {n. bit (0 AND (1::nat)) n}) then pi / 2 else - (pi / 2)))"
    by blast
  have 2: "cmplx_value (stateVec (UniformParityRZ 2 1 (pi / 2) ?e) ! 0) = - \<i>"
    by (simp only: f0 p0 even_zero not_True_eq_False if_False ex)
       (simp add: cmplx_value_def complex_eq_iff)
  from a l(2) have f1: "cmplx_value (stateVec (UniformParityRZ 2 1 (pi / 2) ?e) ! 1)
      = cmplx_value (stateVec ?e ! 1)
        * exp (\<i> * complex_of_real
                (if odd (card {n. bit (1 AND (1::nat)) n}) then pi / 2 else - (pi / 2)))"
    by blast
  have 3: "cmplx_value (stateVec (UniformParityRZ 2 1 (pi / 2) ?e) ! 1) = - 1"
    by (simp only: f1 p1 odd_one not_False_eq_True if_True ex)
       (simp add: cmplx_value_def complex_eq_iff)
  from 1 2 3 show ?thesis by (intro conjI)
qed

subsection \<open>The increment as a map on indices\<close>

text \<open>
  With the host's masks for a range of \<open>L\<close> bits at \<open>s\<close> in a register of \<open>n\<close> qubits, the
  destination keeps the bits outside the range and adds \<open>k\<close> inside it.
\<close>

lemma range_value:
  fixes w :: "64 word"
  shows "drop_bit s (w AND push_bit s (mask L)) = take_bit L (drop_bit s w)"
  by (rule bit_word_eqI) (auto simp: bit_simps dest: bit_imp_le_length)

lemma inc_dest_simp:
  fixes w k :: "64 word"
  shows "inc_dest (push_bit s (mask L)) (mask n AND NOT (push_bit s (mask L))) (mask L) s k w
     = push_bit s (take_bit L (take_bit L (drop_bit s w) + k))
       OR (w AND mask n AND NOT (push_bit s (mask L)))"
  unfolding inc_dest_def range_value
  by (simp add: take_bit_eq_mask and.assoc)

lemma inc_dest_range:
  fixes w k :: "64 word"
  assumes "s + L \<le> n"
  shows "take_bit n (inc_dest (push_bit s (mask L)) (mask n AND NOT (push_bit s (mask L))) (mask L) s k w)
       = inc_dest (push_bit s (mask L)) (mask n AND NOT (push_bit s (mask L))) (mask L) s k w"
  unfolding inc_dest_simp using assms
  by (intro bit_word_eqI) (auto simp: bit_simps)

lemma inc_dest_value:
  fixes w k :: "64 word"
  assumes "s + L \<le> n" "n < 64"
  shows "take_bit L (drop_bit s
           (inc_dest (push_bit s (mask L)) (mask n AND NOT (push_bit s (mask L))) (mask L) s k w))
       = take_bit L (take_bit L (drop_bit s w) + k)"
  unfolding inc_dest_simp using assms
  by (intro bit_word_eqI) (auto simp: bit_simps)

lemma inc_dest_other:
  fixes w k :: "64 word"
  shows "inc_dest (push_bit s (mask L)) (mask n AND NOT (push_bit s (mask L))) (mask L) s k w
          AND mask n AND NOT (push_bit s (mask L))
       = w AND mask n AND NOT (push_bit s (mask L))"
  unfolding inc_dest_simp
  by (intro bit_word_eqI) (auto simp: bit_simps)

lemma inc_dest_low:
  fixes w k :: "64 word"
  assumes "s + L \<le> n"
  shows "take_bit s (inc_dest (push_bit s (mask L)) (mask n AND NOT (push_bit s (mask L))) (mask L) s k w)
       = take_bit s w"
  unfolding inc_dest_simp using assms
  by (intro bit_word_eqI) (auto simp: bit_simps)

lemma inc_dest_high:
  fixes w k :: "64 word"
  assumes "s + L \<le> n" "take_bit n w = w"
  shows "drop_bit (s + L)
           (inc_dest (push_bit s (mask L)) (mask n AND NOT (push_bit s (mask L))) (mask L) s k w)
       = drop_bit (s + L) w"
proof -
  have b: "bit w p \<Longrightarrow> p < n" for p
  proof -
    assume "bit w p"
    then have "bit (take_bit n w) p" using assms(2) by simp
    then show "p < n" by (simp add: bit_simps)
  qed
  show ?thesis
    unfolding inc_dest_simp using assms(1)
    by (intro bit_word_eqI) (auto simp: bit_simps dest: b bit_imp_le_length)
qed

lemma take_bit_add_left:
  fixes y z :: "'a::len word"
  shows "take_bit L (take_bit L y + z) = take_bit L (y + z)"
proof (cases "L \<le> LENGTH('a)")
  case True
  then have d: "(2::int) ^ L dvd 2 ^ LENGTH('a)" by (simp add: le_imp_power_dvd)
  have "uint (take_bit L (take_bit L y + z)) = uint (take_bit L (y + z))"
    unfolding unsigned_take_bit_eq uint_word_ariths
    by (simp add: take_bit_eq_mod mod_mod_cancel [OF d] mod_simps)
  then show ?thesis by (rule word_uint_eqI)
next
  case False
  then have "take_bit L w = w" for w :: "'a word"
    by (simp add: take_bit_word_eq_self)
  then show ?thesis by simp
qed

text \<open>Adding \<open>- k\<close> undoes adding \<open>k\<close>.\<close>

lemma inc_dest_inverse:
  fixes w k :: "64 word"
  assumes "s + L \<le> n" "n < 64" "take_bit n w = w"
  shows "inc_dest (push_bit s (mask L)) (mask n AND NOT (push_bit s (mask L))) (mask L) s (- k)
           (inc_dest (push_bit s (mask L)) (mask n AND NOT (push_bit s (mask L))) (mask L) s k w) = w"
proof -
  let ?R = "push_bit s (mask L) :: 64 word"
  let ?O = "mask n AND NOT ?R :: 64 word"
  let ?D = "inc_dest ?R ?O (mask L) s"
  let ?x = "take_bit L (drop_bit s w)"
  let ?v = "?D k w"
  have v1: "take_bit L (drop_bit s ?v) = take_bit L (?x + k)"
    using assms(1,2) by (rule inc_dest_value)
  have v2: "?v AND ?O = w AND ?O"
    by (rule inc_dest_other)
  have a: "take_bit L (take_bit L (?x + k) + (- k)) = ?x"
  proof -
    have "take_bit L (take_bit L (?x + k) + (- k)) = take_bit L (?x + k + (- k))"
      by (rule take_bit_add_left)
    also have "\<dots> = take_bit L ?x" by (simp only: add.assoc add.right_inverse add_0_right)
    also have "\<dots> = ?x" by simp
    finally show ?thesis .
  qed
  have b: "push_bit s ?x OR (w AND ?O) = take_bit n w"
    using assms(1,2) by (intro bit_word_eqI) (auto simp: bit_simps)
  have "?D (- k) ?v = push_bit s (take_bit L (take_bit L (drop_bit s ?v) + (- k))) OR (?v AND ?O)"
    by (rule inc_dest_simp)
  also have "\<dots> = push_bit s ?x OR (w AND ?O)"
    by (simp only: v1 v2 a)
  also have "\<dots> = w" using b assms(3) by (simp only:)
  finally show ?thesis .
qed

lemma unat_of_nat_small:
  assumes "i < 2 ^ n" "n < 64"
  shows "unat (of_nat i :: 64 word) = i"
proof -
  have "(2::nat) ^ n < 2 ^ 64" by (rule power_strict_increasing) (use assms(2) in simp_all)
  with assms(1) have "i < 2 ^ LENGTH(64)" by simp
  then show ?thesis by (simp only: unat_of_nat mod_less)
qed

lemma take_bit_of_nat_small:
  assumes "i < 2 ^ n" "n < 64"
  shows "take_bit n (of_nat i :: 64 word) = of_nat i"
proof -
  have "unat (take_bit n (of_nat i :: 64 word)) = take_bit n (unat (of_nat i :: 64 word))"
    by (rule unsigned_take_bit_eq)
  also have "\<dots> = take_bit n i" by (simp only: unat_of_nat_small [OF assms])
  also have "\<dots> = i" using assms(1) by (simp add: take_bit_nat_eq_self)
  also have "\<dots> = unat (of_nat i :: 64 word)" by (simp only: unat_of_nat_small [OF assms])
  finally show ?thesis by (simp only: word_unat_eq_iff)
qed

lemma unat_less_of_take_bit:
  fixes w :: "64 word"
  assumes "take_bit n w = w"
  shows "unat w < 2 ^ n"
proof -
  have "unat w = unat (take_bit n w)" using assms by simp
  also have "\<dots> = take_bit n (unat w)" by (rule unsigned_take_bit_eq)
  also have "\<dots> < 2 ^ n" by simp
  finally show ?thesis .
qed

lemma unat_of_nat_pow:
  "n < 64 \<Longrightarrow> unat (of_nat (2 ^ n) :: 64 word) = 2 ^ n"
proof -
  assume "n < 64"
  then have "(2::nat) ^ n < 2 ^ LENGTH(64)" by (intro power_strict_increasing) simp_all
  then show ?thesis by (simp only: unat_of_nat mod_less)
qed

lemma unat_pow:
  "n < 64 \<Longrightarrow> unat (2 ^ n :: 64 word) = 2 ^ n"
  using unat_of_nat_pow [of n] by simp

lemma unat_of_nat_start:
  "start < 64 \<Longrightarrow> unat (of_nat start :: 64 word) = start"
proof -
  assume "start < 64"
  then have "start < 2 ^ 6" by simp
  then show ?thesis by (rule unat_of_nat_small) simp
qed

lemma inc_index_masks:
  "inc_index n start L k i
   = unat (inc_dest (push_bit start (mask L)) (mask n AND NOT (push_bit start (mask L))) (mask L)
             start k (of_nat i))"
proof -
  have m: "push_bit L 1 - 1 = (mask L :: 64 word)" "of_nat (2 ^ n) - 1 = (mask n :: 64 word)"
    by (simp_all add: mask_eq_exp_minus_1 push_bit_of_1)
  show ?thesis by (simp only: inc_index_def m)
qed

lemma inc_index_less:
  assumes "start + L \<le> n" "n < 64" "i < 2 ^ n"
  shows "inc_index n start L k i < 2 ^ n"
  unfolding inc_index_masks
  by (rule unat_less_of_take_bit) (rule inc_dest_range [OF assms(1)])

lemma inc_index_inverse:
  assumes "start + L \<le> n" "n < 64" "i < 2 ^ n"
  shows "inc_index n start L (- k) (inc_index n start L k i) = i"
proof -
  let ?D = "\<lambda>k. inc_dest (push_bit start (mask L)) (mask n AND NOT (push_bit start (mask L)))
                   (mask L) start k"
  have "of_nat (unat (?D k (of_nat i))) = ?D k (of_nat i)" by simp
  moreover have "?D (- k) (?D k (of_nat i)) = of_nat i"
    using assms(1,2) take_bit_of_nat_small [OF assms(3,2)] by (rule inc_dest_inverse)
  ultimately show ?thesis
    unfolding inc_index_masks using unat_of_nat_small [OF assms(3,2)] by simp
qed

lemma unat_take_drop:
  fixes w :: "64 word"
  shows "unat (take_bit L (drop_bit s w)) = (unat w div 2 ^ s) mod 2 ^ L"
  unfolding unsigned_take_bit_eq unat_drop_bit_eq
  by (simp only: take_bit_eq_mod drop_bit_eq_div)

lemma unat_take_bit_add:
  fixes x k :: "64 word"
  assumes "L \<le> 64"
  shows "unat (take_bit L (x + k)) = (unat x + unat k) mod 2 ^ L"
proof -
  have d: "(2::nat) ^ L dvd 2 ^ LENGTH(64)"
    by (rule le_imp_power_dvd) (use assms in simp)
  have "unat (take_bit L (x + k)) = take_bit L (unat (x + k))" by (rule unsigned_take_bit_eq)
  also have "\<dots> = ((unat x + unat k) mod 2 ^ LENGTH(64)) mod 2 ^ L"
    unfolding unat_word_ariths by (simp only: take_bit_eq_mod)
  also have "\<dots> = (unat x + unat k) mod 2 ^ L" using d by (rule mod_mod_cancel)
  finally show ?thesis .
qed

text \<open>
  Read as numbers: the bits below the range and the bits above it stay, and the range, as an
  unsigned integer, has \<open>k\<close> added modulo \<open>2 ^ L\<close>.
\<close>

lemma inc_index_meaning:
  assumes "start + L \<le> n" "n < 64" "i < 2 ^ n"
  shows "inc_index n start L k i mod 2 ^ start = i mod 2 ^ start"
    and "inc_index n start L k i div 2 ^ (start + L) = i div 2 ^ (start + L)"
    and "(inc_index n start L k i div 2 ^ start) mod 2 ^ L
         = ((i div 2 ^ start) mod 2 ^ L + unat k) mod 2 ^ L"
proof -
  have L: "L \<le> 64" using assms by simp
  let ?w = "of_nat i :: 64 word"
  let ?D = "inc_dest (push_bit start (mask L)) (mask n AND NOT (push_bit start (mask L))) (mask L)
              start k ?w"
  have u: "unat ?w = i" using assms(3,2) by (rule unat_of_nat_small)
  have t: "take_bit n ?w = ?w" using assms(3,2) by (rule take_bit_of_nat_small)
  have "unat (take_bit start ?D) = unat (take_bit start ?w)"
    using inc_dest_low [OF assms(1), of k ?w] by (simp only:)
  then show "inc_index n start L k i mod 2 ^ start = i mod 2 ^ start"
    unfolding inc_index_masks unsigned_take_bit_eq u by (simp only: take_bit_eq_mod)
  have "unat (drop_bit (start + L) ?D) = unat (drop_bit (start + L) ?w)"
    using inc_dest_high [OF assms(1) t, of k] by (simp only:)
  then show "inc_index n start L k i div 2 ^ (start + L) = i div 2 ^ (start + L)"
    unfolding inc_index_masks unat_drop_bit_eq u by (simp only: drop_bit_eq_div)
  have "unat (take_bit L (drop_bit start ?D))
        = unat (take_bit L (take_bit L (drop_bit start ?w) + k))"
    using inc_dest_value [OF assms(1,2), of k ?w] by (simp only:)
  then have "(unat ?D div 2 ^ start) mod 2 ^ L
             = (unat (take_bit L (drop_bit start ?w)) + unat k) mod 2 ^ L"
    by (simp only: unat_take_drop unat_take_bit_add [OF L])
  then show "(inc_index n start L k i div 2 ^ start) mod 2 ^ L
             = ((i div 2 ^ start) mod 2 ^ L + unat k) mod 2 ^ L"
    unfolding inc_index_masks by (simp only: unat_take_drop u)
qed

subsection \<open>The increment on the state\<close>

lemma inc_unfold:
  "n < 64 \<Longrightarrow> start < 64 \<Longrightarrow>
   inc ID Nthreads sv
     [of_nat (2 ^ n), push_bit start (push_bit L 1 - 1),
      (of_nat (2 ^ n) - 1) AND NOT (push_bit start (push_bit L 1 - 1)),
      push_bit L 1, of_nat start, k, 0, 0, 0, 0]
   = work_item ID Nthreads (2 ^ n)
       (\<lambda>lcv nsv. nsv[inc_index n start L k lcv := sv ! unat (of_nat lcv :: 64 word)])"
  by (rule ext) (simp add: inc_def Let_def unat_pow unat_of_nat_start inc_index_def)

text \<open>
  A launch of the kernel on a fresh buffer: every source index \<open>i\<close> has its amplitude at the
  destination index.
\<close>

lemma inc_launch:
  assumes "0 < ngc" "start + L \<le> n" "n < 64" "length nsv = 2 ^ n"
  shows "length (enqueueNDRangeKernel ngc
           (\<lambda>ID Nthreads. inc ID Nthreads sv
              [of_nat (2 ^ n), push_bit start (push_bit L 1 - 1),
               (of_nat (2 ^ n) - 1) AND NOT (push_bit start (push_bit L 1 - 1)),
               push_bit L 1, of_nat start, k, 0, 0, 0, 0]) nsv) = 2 ^ n"
    and "i < 2 ^ n \<Longrightarrow>
         enqueueNDRangeKernel ngc
           (\<lambda>ID Nthreads. inc ID Nthreads sv
              [of_nat (2 ^ n), push_bit start (push_bit L 1 - 1),
               (of_nat (2 ^ n) - 1) AND NOT (push_bit start (push_bit L 1 - 1)),
               push_bit L 1, of_nat start, k, 0, 0, 0, 0]) nsv
           ! (inc_index n start L k i) = sv ! i"
proof -
  let ?args = "[of_nat (2 ^ n), push_bit start (push_bit L 1 - 1),
               (of_nat (2 ^ n) - 1) AND NOT (push_bit start (push_bit L 1 - 1)),
               push_bit L 1, of_nat start, k, 0, 0, 0, 0] :: 64 word list"
  let ?d = "inc_index n start L k"
  let ?f = "\<lambda>lcv. sv ! unat (of_nat lcv :: 64 word)"
  let ?body = "\<lambda>lcv nsv. nsv[?d lcv := ?f lcv]"
  have s: "start < 64" using assms(2,3) by simp
  from enqueue_visits [OF assms(1), of "2 ^ n" ?body nsv]
  obtain ys where ys: "distinct ys" "set ys = {..<2 ^ n}"
    "enqueueNDRangeKernel ngc (\<lambda>ID Nthreads. work_item ID Nthreads (2 ^ n) ?body) nsv
       = fold ?body ys nsv" by blast
  have eq: "enqueueNDRangeKernel ngc (\<lambda>ID Nthreads. inc ID Nthreads sv ?args) nsv
        = fold ?body ys nsv"
    unfolding inc_unfold [OF assms(3) s] by (rule ys(3))
  show "length (enqueueNDRangeKernel ngc (\<lambda>ID Nthreads. inc ID Nthreads sv ?args) nsv) = 2 ^ n"
    unfolding eq using assms(4) by (simp only: fold_scatter_length)
  have inj: "inj_on ?d (set ys)"
  proof (rule inj_onI)
    fix x y assume "x \<in> set ys" "y \<in> set ys" and e: "?d x = ?d y"
    then have "x < 2 ^ n" "y < 2 ^ n" using ys(2) by simp_all
    then have ix: "inc_index n start L (- k) (?d x) = x"
      and iy: "inc_index n start L (- k) (?d y) = y"
      using assms(2,3) by (simp_all only: inc_index_inverse)
    from e have "inc_index n start L (- k) (?d x) = inc_index n start L (- k) (?d y)"
      by (rule arg_cong)
    then show "x = y" using ix iy by (rule box_equals)
  qed
  show "enqueueNDRangeKernel ngc (\<lambda>ID Nthreads. inc ID Nthreads sv ?args) nsv ! (?d i) = sv ! i"
    if "i < 2 ^ n"
  proof -
    have "i \<in> set ys" using that ys(2) by simp
    moreover have "?d i < length nsv"
      using inc_index_less [OF assms(2,3) that] assms(4) by (simp only:)
    ultimately have "fold ?body ys nsv ! (?d i) = ?f i"
      using ys(1) inj by (intro fold_scatter_nth)
    then show ?thesis unfolding eq using unat_of_nat_small [OF that assms(3)] by (simp only:)
  qed
qed

lemma INC_unfold:
  assumes "start + len \<le> qubitCount e" "qubitCount e \<le> 30" "maxQPower e = 2 ^ qubitCount e"
  shows "INC ngc k start len e
     = Some (e\<lparr>stateVec := enqueueNDRangeKernel ngc
                 (\<lambda>ID Nthreads. inc ID Nthreads (stateVec e)
                    [of_nat (2 ^ qubitCount e), push_bit start (push_bit len 1 - 1),
                     (of_nat (2 ^ qubitCount e) - 1) AND NOT (push_bit start (push_bit len 1 - 1)),
                     push_bit len 1, of_nat start, k, 0, 0, 0, 0])
                 (replicate (2 ^ qubitCount e) (0, 0))\<rparr>)"
proof -
  have "\<not> (30 < len \<or> 64 \<le> start)" using assms(1,2) by simp
  then show ?thesis
    by (simp add: INC_def INT_ocl_def DispatchCall_def ResetStateVec_def Let_def assms(3))
qed

text \<open>
  C4. On an engine of at most 30 qubits whose state vector has \<open>2 ^ qubitCount\<close> amplitudes,
  for a range inside the register and every addend \<open>k\<close>: \<^verbatim>\<open>INC(k)\<close> returns an engine \<open>e1\<close> in
  which the amplitude of every index \<open>i\<close> has moved to the index \<open>inc_index \<dots> i\<close>, which agrees
  with \<open>i\<close> below and above the range and holds, in the range, the range of \<open>i\<close> plus \<open>k\<close> modulo
  \<open>2 ^ len\<close>; and \<^verbatim>\<open>INC(- k)\<close> on \<open>e1\<close> returns the engine that the first call started from.
\<close>

theorem INC_then_INC_minus:
  fixes e :: "('r::zero) cmplx QEngine"
  assumes "0 < ngc" and "start + len \<le> qubitCount e" and "qubitCount e \<le> 30"
    and "maxQPower e = 2 ^ qubitCount e" and "length (stateVec e) = 2 ^ qubitCount e"
  shows "\<exists>e1. INC ngc k start len e = Some e1
            \<and> INC ngc (- k) start len e1 = Some e
            \<and> length (stateVec e1) = 2 ^ qubitCount e
            \<and> (\<forall>i < 2 ^ qubitCount e.
                 stateVec e1 ! inc_index (qubitCount e) start len k i = stateVec e ! i
                 \<and> inc_index (qubitCount e) start len k i < 2 ^ qubitCount e
                 \<and> inc_index (qubitCount e) start len k i mod 2 ^ start = i mod 2 ^ start
                 \<and> inc_index (qubitCount e) start len k i div 2 ^ (start + len)
                     = i div 2 ^ (start + len)
                 \<and> (inc_index (qubitCount e) start len k i div 2 ^ start) mod 2 ^ len
                     = ((i div 2 ^ start) mod 2 ^ len + unat k) mod 2 ^ len)"
proof -
  let ?n = "qubitCount e"
  have n64: "?n < 64" using assms(3) by simp
  let ?z = "replicate (2 ^ ?n) (0, 0) :: 'r cmplx list"
  let ?args = "\<lambda>k. [of_nat (2 ^ ?n), push_bit start (push_bit len 1 - 1),
                     (of_nat (2 ^ ?n) - 1) AND NOT (push_bit start (push_bit len 1 - 1)),
                     push_bit len 1, of_nat start, k, 0, 0, 0, 0] :: 64 word list"
  let ?sv1 = "enqueueNDRangeKernel ngc
                 (\<lambda>ID Nthreads. inc ID Nthreads (stateVec e) (?args k)) ?z"
  let ?e1 = "e\<lparr>stateVec := ?sv1\<rparr>"
  let ?sv2 = "enqueueNDRangeKernel ngc
                 (\<lambda>ID Nthreads. inc ID Nthreads ?sv1 (?args (- k))) ?z"
  have z: "length ?z = 2 ^ ?n" by simp
  note l1 = inc_launch [OF assms(1,2) n64 z, where sv = "stateVec e" and k = k]
  note l2 = inc_launch [OF assms(1,2) n64 z, where sv = ?sv1 and k = "- k"]
  have s1: "INC ngc k start len e = Some ?e1"
    using assms(2,3,4) by (rule INC_unfold)
  have "INC ngc (- k) start len ?e1 = Some (?e1\<lparr>stateVec := ?sv2\<rparr>)"
    using INC_unfold [of start len ?e1 ngc "- k"] assms(2,3,4) by simp
  moreover have "?sv2 = stateVec e"
  proof (rule nth_equalityI)
    show "length ?sv2 = length (stateVec e)" using l2(1) assms(5) by (simp only:)
    fix i assume "i < length ?sv2"
    then have i: "i < 2 ^ ?n" using l2(1) by (simp only:)
    let ?j = "inc_index ?n start len k i"
    have j: "?j < 2 ^ ?n" using assms(2) n64 i by (rule inc_index_less)
    have "?sv2 ! (inc_index ?n start len (- k) ?j) = ?sv1 ! ?j" using j by (rule l2(2))
    also have "?sv1 ! ?j = stateVec e ! i" using i by (rule l1(2))
    also have "inc_index ?n start len (- k) ?j = i" using assms(2) n64 i by (rule inc_index_inverse)
    finally show "?sv2 ! i = stateVec e ! i" .
  qed
  ultimately have s2: "INC ngc (- k) start len ?e1 = Some e" by simp
  have s3: "length (stateVec ?e1) = 2 ^ ?n" using l1(1) by simp
  have s4: "stateVec ?e1 ! inc_index ?n start len k i = stateVec e ! i
        \<and> inc_index ?n start len k i < 2 ^ ?n
        \<and> inc_index ?n start len k i mod 2 ^ start = i mod 2 ^ start
        \<and> inc_index ?n start len k i div 2 ^ (start + len) = i div 2 ^ (start + len)
        \<and> (inc_index ?n start len k i div 2 ^ start) mod 2 ^ len
            = ((i div 2 ^ start) mod 2 ^ len + unat k) mod 2 ^ len"
    if i: "i < 2 ^ ?n" for i
  proof (intro conjI)
    show "stateVec ?e1 ! inc_index ?n start len k i = stateVec e ! i"
      using l1(2) [OF i] by simp
    show "inc_index ?n start len k i < 2 ^ ?n"
      using assms(2) n64 i by (rule inc_index_less)
    show "inc_index ?n start len k i mod 2 ^ start = i mod 2 ^ start"
      using assms(2) n64 i by (rule inc_index_meaning(1))
    show "inc_index ?n start len k i div 2 ^ (start + len) = i div 2 ^ (start + len)"
      using assms(2) n64 i by (rule inc_index_meaning(2))
    show "(inc_index ?n start len k i div 2 ^ start) mod 2 ^ len
            = ((i div 2 ^ start) mod 2 ^ len + unat k) mod 2 ^ len"
      using assms(2) n64 i by (rule inc_index_meaning(3))
  qed
  show ?thesis
  proof (intro exI conjI allI impI)
    show "INC ngc k start len e = Some ?e1" by (rule s1)
    show "INC ngc (- k) start len ?e1 = Some e" by (rule s2)
    show "length (stateVec ?e1) = 2 ^ ?n" by (rule s3)
  qed (use s4 in blast)+
qed
theorem INC_then_INC_minus_witness:
  "\<exists>e1. INC 2 1 0 2
          \<lparr>qubitCount = 2, maxQPower = 4, runningNorm = 1,
           stateVec = [(1, 0), (2, 0), (3, 0), (4, 0 :: int)]\<rparr> = Some e1
      \<and> INC 2 (- 1) 0 2 e1
          = Some \<lparr>qubitCount = 2, maxQPower = 4, runningNorm = 1,
                  stateVec = [(1, 0), (2, 0), (3, 0), (4, 0)]\<rparr>
      \<and> length (stateVec e1) = 4
      \<and> stateVec e1 ! 0 = (4, 0)
      \<and> stateVec e1 ! 3 = (3, 0)"
proof -
  let ?e = "\<lparr>qubitCount = 2, maxQPower = 4, runningNorm = 1,
            stateVec = [(1, 0), (2, 0), (3, 0), (4, 0)]\<rparr> :: int cmplx QEngine"
  have h: "0 < (2::nat)" "0 + 2 \<le> qubitCount ?e" "qubitCount ?e \<le> 30"
    "maxQPower ?e = 2 ^ qubitCount ?e" "length (stateVec ?e) = 2 ^ qubitCount ?e"
    by simp_all
  from INC_then_INC_minus [OF h, of 1]
  obtain e1 where e1: "INC 2 1 0 2 ?e = Some e1" "INC 2 (- 1) 0 2 e1 = Some ?e"
    "length (stateVec e1) = 2 ^ qubitCount ?e"
    "\<forall>i < 2 ^ qubitCount ?e.
       stateVec e1 ! inc_index (qubitCount ?e) 0 2 1 i = stateVec ?e ! i
       \<and> inc_index (qubitCount ?e) 0 2 1 i < 2 ^ qubitCount ?e
       \<and> inc_index (qubitCount ?e) 0 2 1 i mod 2 ^ 0 = i mod 2 ^ 0
       \<and> inc_index (qubitCount ?e) 0 2 1 i div 2 ^ (0 + 2) = i div 2 ^ (0 + 2)
       \<and> (inc_index (qubitCount ?e) 0 2 1 i div 2 ^ 0) mod 2 ^ 2
           = ((i div 2 ^ 0) mod 2 ^ 2 + unat (1 :: 64 word)) mod 2 ^ 2"
    by blast
  have q: "qubitCount ?e = 2" by simp
  have i3: "inc_index 2 0 2 1 3 = 0" and i2: "inc_index 2 0 2 1 2 = 3"
    by (simp_all add: inc_index_def inc_dest_def)
  have "(3::nat) < 2 ^ qubitCount ?e" "(2::nat) < 2 ^ qubitCount ?e" by simp_all
  with e1(4) have "stateVec e1 ! inc_index (qubitCount ?e) 0 2 1 3 = stateVec ?e ! 3"
    and "stateVec e1 ! inc_index (qubitCount ?e) 0 2 1 2 = stateVec ?e ! 2"
    by blast+
  then have a: "stateVec e1 ! 0 = (4, 0)" and b: "stateVec e1 ! 3 = (3, 0)"
    unfolding q i3 i2 by simp_all
  have c: "length (stateVec e1) = 4" using e1(3) by simp
  from e1(1,2) c a b show ?thesis by blast
qed

subsection \<open>Probability queries on the CPU engine\<close>

lemma NormalizeState_body:
  "(\<lambda>lcv sv. let sv1 = sv[lcv := sv ! lcv / complex_of_real r]
              in if norm2 (sv1 ! lcv) < min_norm then sv1[lcv := 0] else sv1)
   = (\<lambda>lcv sv. sv[lcv := (if norm2 (sv ! lcv / complex_of_real r) < min_norm then 0
                             else sv ! lcv / complex_of_real r)])"
proof (intro ext)
  fix lcv :: nat and sv :: "complex list"
  show "(let sv1 = sv[lcv := sv ! lcv / complex_of_real r]
         in if norm2 (sv1 ! lcv) < min_norm then sv1[lcv := 0] else sv1)
        = sv[lcv := (if norm2 (sv ! lcv / complex_of_real r) < min_norm then 0
                     else sv ! lcv / complex_of_real r)]"
  proof (cases "lcv < length sv")
    case True
    then show ?thesis by (simp add: Let_def)
  next
    case False
    then have "length sv \<le> lcv" by simp
    then have "sv[lcv := x] = sv" for x by (rule list_update_beyond)
    then show ?thesis by (simp only: Let_def if_cancel)
  qed
qed

lemma stateVec_NormalizeState:
  "stateVec (NormalizeState e)
   = fold (\<lambda>lcv sv. sv[lcv := (if norm2 (sv ! lcv / complex_of_real (runningNorm e)) < min_norm
                                 then 0 else sv ! lcv / complex_of_real (runningNorm e))])
       [0..<maxQPower e] (stateVec e)"
  unfolding NormalizeState_def NormalizeState_body par_for_def by (simp add: Let_def)

lemma length_NormalizeState [simp]: "length (stateVec (NormalizeState e)) = length (stateVec e)"
  unfolding stateVec_NormalizeState by (rule fold_update_self_length)

lemma runningNorm_NormalizeState [simp]: "runningNorm (NormalizeState e) = 1"
  by (simp add: NormalizeState_def Let_def)

lemma maxQPower_NormalizeState [simp]: "maxQPower (NormalizeState e) = maxQPower e"
  by (simp add: NormalizeState_def Let_def)

lemma NormalizeState_nth:
  assumes "i < maxQPower e" and "maxQPower e \<le> length (stateVec e)"
  shows "stateVec (NormalizeState e) ! i
         = (if norm2 (stateVec e ! i / complex_of_real (runningNorm e)) < min_norm then 0
            else stateVec e ! i / complex_of_real (runningNorm e))"
proof -
  have "i < length (stateVec e)" using assms by simp
  then show ?thesis
    unfolding stateVec_NormalizeState
    using fold_update_self_nth [of "[0..<maxQPower e]" i "stateVec e"
        "\<lambda>lcv a. if norm2 (a / complex_of_real (runningNorm e)) < min_norm then 0
                  else a / complex_of_real (runningNorm e)"] assms(1)
    by simp
qed

lemma fold_cond_add:
  fixes a :: real
  shows "fold (\<lambda>lcv oneChance. if P lcv then oneChance + f lcv else oneChance) xs a
         = a + sum_list (map f (filter P xs))"
  by (induction xs arbitrary: a) simp_all

lemma and_qPower: "(lcv AND (2::nat) ^ qubit = 2 ^ qubit) = bit lcv qubit"
proof
  assume "lcv AND (2::nat) ^ qubit = 2 ^ qubit"
  then have "bit (lcv AND (2::nat) ^ qubit) qubit = bit ((2::nat) ^ qubit) qubit"
    by (simp only:)
  then show "bit lcv qubit" by (simp add: bit_simps)
next
  assume "bit lcv qubit"
  then show "lcv AND (2::nat) ^ qubit = 2 ^ qubit"
    by (intro bit_eqI) (auto simp: bit_simps)
qed

text \<open>With a running norm of 1 the two queries leave the engine as it is.\<close>

lemma Prob_pure:
  "runningNorm e = 1 \<Longrightarrow> qubit \<le> 30 \<Longrightarrow> map_option snd (Prob_CPU qubit e) = Some e"
  "runningNorm e = 1 \<Longrightarrow> snd (ProbAll_CPU fullRegister e) = e"
  by (simp_all add: Prob_CPU_def ProbAll_CPU_def Let_def)

text \<open>
  C9. When the running norm of a CPU engine is not 1 (and not 0, where the division has no
  value), \<^verbatim>\<open>Prob\<close> and \<^verbatim>\<open>ProbAll\<close> change the engine: they leave it normalised, that is, with
  running norm 1 and every amplitude divided by the old running norm, or 0 if the squared
  magnitude of the quotient is below \<open>min_norm\<close>. The probability returned is computed from
  the new amplitudes: for \<^verbatim>\<open>Prob(qubit)\<close> the sum of the squared magnitudes over the indices
  with the bit set, for \<^verbatim>\<open>ProbAll(fullRegister)\<close> the squared magnitude at that index.
\<close>

theorem Prob_renormalizes:
  assumes "runningNorm e \<noteq> 1" and "runningNorm e \<noteq> 0"
    and "length (stateVec e) = maxQPower e" and "qubit \<le> 30"
  shows "Prob_CPU qubit e
           = Some (sum_list (map (\<lambda>lcv. norm2 (stateVec (NormalizeState e) ! lcv))
                              (filter (\<lambda>lcv. bit lcv qubit) [0..<maxQPower e])),
                   NormalizeState e)
       \<and> ProbAll_CPU fullRegister e
           = (norm2 (stateVec (NormalizeState e) ! fullRegister), NormalizeState e)
       \<and> NormalizeState e \<noteq> e
       \<and> runningNorm (NormalizeState e) = 1
       \<and> length (stateVec (NormalizeState e)) = length (stateVec e)
       \<and> (\<forall>i < maxQPower e.
            stateVec (NormalizeState e) ! i
            = (if norm2 (stateVec e ! i / complex_of_real (runningNorm e)) < min_norm then 0
               else stateVec e ! i / complex_of_real (runningNorm e)))"
proof (intro conjI allI impI)
  show "Prob_CPU qubit e
           = Some (sum_list (map (\<lambda>lcv. norm2 (stateVec (NormalizeState e) ! lcv))
                              (filter (\<lambda>lcv. bit lcv qubit) [0..<maxQPower e])),
                   NormalizeState e)"
    using assms(1,4) by (simp add: Prob_CPU_def Let_def fold_cond_add and_qPower)
  show "ProbAll_CPU fullRegister e
           = (norm2 (stateVec (NormalizeState e) ! fullRegister), NormalizeState e)"
    using assms(1) by (simp add: ProbAll_CPU_def Let_def)
  show "NormalizeState e \<noteq> e"
  proof
    assume "NormalizeState e = e"
    then have "runningNorm (NormalizeState e) = runningNorm e" by (simp only:)
    then show False using assms(1) by simp
  qed
  show "runningNorm (NormalizeState e) = 1" by simp
  show "length (stateVec (NormalizeState e)) = length (stateVec e)" by simp
  show "stateVec (NormalizeState e) ! i
            = (if norm2 (stateVec e ! i / complex_of_real (runningNorm e)) < min_norm then 0
               else stateVec e ! i / complex_of_real (runningNorm e))"
    if "i < maxQPower e" for i
    using that assms(3) by (intro NormalizeState_nth) simp_all
qed

theorem Prob_renormalizes_witness:
  "Prob_CPU 0 \<lparr>qubitCount = 1, maxQPower = 2, runningNorm = 2, stateVec = [2, 1 / 100000000]\<rparr>
     = Some (0, \<lparr>qubitCount = 1, maxQPower = 2, runningNorm = 1, stateVec = [1, 0]\<rparr>)
   \<and> ProbAll_CPU 0 \<lparr>qubitCount = 1, maxQPower = 2, runningNorm = 2, stateVec = [2, 1 / 100000000]\<rparr>
     = (1, \<lparr>qubitCount = 1, maxQPower = 2, runningNorm = 1, stateVec = [1, 0]\<rparr>)"
proof -
  let ?e = "\<lparr>qubitCount = 1, maxQPower = 2, runningNorm = 2, stateVec = [2, 1 / 100000000]\<rparr>
            :: QEngineCPU"
  have h: "runningNorm ?e \<noteq> 1" "runningNorm ?e \<noteq> 0" "length (stateVec ?e) = maxQPower ?e"
    "(0::nat) \<le> 30"
    by simp_all
  note t = Prob_renormalizes [OF h, of 0]
  have n: "NormalizeState ?e = \<lparr>qubitCount = 1, maxQPower = 2, runningNorm = 1, stateVec = [1, 0]\<rparr>"
    by (simp add: NormalizeState_def Let_def par_for_def upt_0_2 norm2_def min_norm_def)
  have m: "maxQPower ?e = 2" by simp
  from t have "Prob_CPU 0 ?e
           = Some (sum_list (map (\<lambda>lcv. norm2 (stateVec (NormalizeState ?e) ! lcv))
                              (filter (\<lambda>lcv. bit lcv 0) [0..<maxQPower ?e])),
                   NormalizeState ?e)"
    by blast
  then have 1: "Prob_CPU 0 ?e
      = Some (0, \<lparr>qubitCount = 1, maxQPower = 2, runningNorm = 1, stateVec = [1, 0]\<rparr>)"
    unfolding n m by (simp add: upt_0_2 bit_0 norm2_def)
  from t have "ProbAll_CPU 0 ?e = (norm2 (stateVec (NormalizeState ?e) ! 0), NormalizeState ?e)"
    by blast
  then have 2: "ProbAll_CPU 0 ?e
      = (1, \<lparr>qubitCount = 1, maxQPower = 2, runningNorm = 1, stateVec = [1, 0]\<rparr>)"
    unfolding n by (simp add: norm2_def)
  from 1 2 show ?thesis by (intro conjI)
qed

subsection \<open>Construction beyond the capacity of the index type\<close>




subsection \<open>Disposing of the whole register\<close>

lemma Dispose_CPU_all:
  assumes "0 < qubitCount e" and "qubitCount e \<le> 30" and "start \<le> 30"
    and "maxQPower e = 2 ^ qubitCount e"
  shows "Dispose_CPU junk junkP start (qubitCount e) e
         = Some \<lparr>qubitCount = 1, maxQPower = 2, runningNorm = 1, stateVec = [junk 0, junk 1]\<rparr>"
proof -
  let ?t = "if runningNorm e \<noteq> 1 then NormalizeState e else e"
  have q: "qubitCount ?t = qubitCount e" "maxQPower ?t = maxQPower e" "runningNorm ?t = 1"
    by (simp_all add: NormalizeState_def Let_def)
  have "Dispose_CPU junk junkP start (qubitCount e) e
        = Some (ResetStateVec (AllocStateVec junk 2) (SetQubitCount 1 ?t))"
    using assms by (simp add: Dispose_CPU_def Let_def q(2) push_bit_eq_mult SetQubitCount_def)
  also have "ResetStateVec (AllocStateVec junk 2) (SetQubitCount 1 ?t)
        = \<lparr>qubitCount = 1, maxQPower = 2, runningNorm = 1, stateVec = [junk 0, junk 1]\<rparr>"
    using q(3)
    by (cases ?t) (simp add: ResetStateVec_def SetQubitCount_def AllocStateVec_def upt_0_2)
  finally show ?thesis .
qed

lemma Dispose_CPU_part:
  assumes "0 < len" and "start + len \<le> qubitCount e" and "len < qubitCount e"
    and "qubitCount e \<le> 30" and "maxQPower e = 2 ^ qubitCount e"
  shows "\<exists>e'. Dispose_CPU junk junkP start len e = Some e' \<and> qubitCount e' = qubitCount e - len"
proof -
  let ?t = "if runningNorm e \<noteq> 1 then NormalizeState e else e"
  have q: "qubitCount ?t = qubitCount e" "maxQPower ?t = maxQPower e"
    by (simp_all add: NormalizeState_def Let_def)
  have "(2::nat) ^ len < 2 ^ qubitCount e" using assms(3) by simp
  then show ?thesis
    using assms
    by (simp add: Dispose_CPU_def Let_def q push_bit_eq_mult SetQubitCount_def ResetStateVec_def)
qed

lemma Dispose_all:
  "Dispose C start (qubitCount h) h
   = h\<lparr>qubitCount := 1, maxQPower := 2, stabilizer := Some (QStabilizer_new C 1 0), engine := None,
        shards := map (\<lambda>_. None) (shards h)\<rparr>"
  by (simp add: Dispose_def Let_def DumpBuffers_def SetQubitCount_def MakeStabilizer_def)

lemma Dispose_perm_all:
  "Dispose_perm C start (qubitCount h) perm h
   = h\<lparr>qubitCount := 1, maxQPower := 2, stabilizer := Some (QStabilizer_new C 1 0), engine := None,
        shards := map (\<lambda>_. None) (shards h)\<rparr>"
  by (simp add: Dispose_perm_def Let_def DumpBuffers_def SetQubitCount_def MakeStabilizer_def)

lemma Decompose_all:
  "qubitCount dest = qubitCount h \<Longrightarrow>
   fst (Decompose C start dest h)
   = h\<lparr>qubitCount := 1, maxQPower := 2, stabilizer := Some (QStabilizer_new C 1 0), engine := None,
        shards := map (\<lambda>_. None) (shards h)\<rparr>"
  by (simp add: Decompose_def Let_def DumpBuffers_def SetQubitCount_def MakeStabilizer_def)

lemma qubitCount_Dispose:
  "qubitCount (Dispose C start len h)
     = (if len = qubitCount h then 1 else bitLenInt_minus (qubitCount h) len)"
  "qubitCount (Dispose_perm C start len perm h)
     = (if len = qubitCount h then 1 else bitLenInt_minus (qubitCount h) len)"
  by (simp_all add: Dispose_def Dispose_perm_def Let_def DumpBuffers_def SetQubitCount_def)

text \<open>
  C10, as stated: after disposing of the entire register the engine is one qubit in the
  state \<open>|0\<rangle>\<close>. For the CPU engine this fails: the new state vector is allocated and not
  written. If the memory holds 0 and 1, a two-qubit engine in \<open>|00\<rangle>\<close> that disposes of both
  qubits ends as one qubit in \<open>|1\<rangle>\<close>.
\<close>

theorem Dispose_all_not_zero_state:
  "Dispose_CPU (\<lambda>n. of_nat n) (\<lambda>n. 0) 0 2
     \<lparr>qubitCount = 2, maxQPower = 4, runningNorm = 1, stateVec = [1, 0, 0, 0]\<rparr>
   = Some \<lparr>qubitCount = 1, maxQPower = 2, runningNorm = 1, stateVec = [0, 1]\<rparr>"
  by (simp add: Dispose_CPU_def Let_def SetQubitCount_def ResetStateVec_def AllocStateVec_def upt_0_2)

text \<open>
  C10, amended. Disposing of or decomposing the entire register never leaves a zero-qubit
  engine. The stabilizer hybrid's \<^verbatim>\<open>Dispose\<close> (both overloads) and \<^verbatim>\<open>Decompose\<close> of the whole
  register leave one qubit held by a new stabilizer of one qubit in permutation 0, with no
  engine. \<^verbatim>\<open>QEngineCPU::Dispose\<close> of the whole register leaves one qubit and running norm 1,
  with two amplitudes that are whatever the allocator handed out. A \<^verbatim>\<open>Dispose\<close> of fewer
  qubits leaves the others, so at least one.
\<close>

theorem whole_register_leaves_one_qubit:
  "(0 < qubitCount e \<and> qubitCount e \<le> 30 \<and> start \<le> 30 \<and> maxQPower e = 2 ^ qubitCount e
      \<longrightarrow> Dispose_CPU junk junkP start (qubitCount e) e
            = Some \<lparr>qubitCount = 1, maxQPower = 2, runningNorm = 1, stateVec = [junk 0, junk 1]\<rparr>)
   \<and> (0 < len \<and> start + len \<le> qubitCount e \<and> len < qubitCount e \<and> qubitCount e \<le> 30
        \<and> maxQPower e = 2 ^ qubitCount e
      \<longrightarrow> (\<exists>e'. Dispose_CPU junk junkP start len e = Some e'
                \<and> qubitCount e' = qubitCount e - len \<and> 1 \<le> qubitCount e'))
   \<and> Dispose C start (qubitCount h) h
       = h\<lparr>qubitCount := 1, maxQPower := 2, stabilizer := Some (QStabilizer_new C 1 0),
            engine := None, shards := map (\<lambda>_. None) (shards h)\<rparr>
   \<and> Dispose_perm C start (qubitCount h) perm h
       = h\<lparr>qubitCount := 1, maxQPower := 2, stabilizer := Some (QStabilizer_new C 1 0),
            engine := None, shards := map (\<lambda>_. None) (shards h)\<rparr>
   \<and> (qubitCount dest = qubitCount h
      \<longrightarrow> fst (Decompose C start dest h)
            = h\<lparr>qubitCount := 1, maxQPower := 2, stabilizer := Some (QStabilizer_new C 1 0),
                 engine := None, shards := map (\<lambda>_. None) (shards h)\<rparr>)
   \<and> (len \<le> qubitCount h
      \<longrightarrow> 1 \<le> qubitCount (Dispose C start len h)
          \<and> 1 \<le> qubitCount (Dispose_perm C start len perm h))"
proof (intro conjI impI)
  show "Dispose_CPU junk junkP start (qubitCount e) e
            = Some \<lparr>qubitCount = 1, maxQPower = 2, runningNorm = 1, stateVec = [junk 0, junk 1]\<rparr>"
    if "0 < qubitCount e \<and> qubitCount e \<le> 30 \<and> start \<le> 30 \<and> maxQPower e = 2 ^ qubitCount e"
    using that by (intro Dispose_CPU_all) simp_all
  show "\<exists>e'. Dispose_CPU junk junkP start len e = Some e'
                \<and> qubitCount e' = qubitCount e - len \<and> 1 \<le> qubitCount e'"
    if a: "0 < len \<and> start + len \<le> qubitCount e \<and> len < qubitCount e \<and> qubitCount e \<le> 30
        \<and> maxQPower e = 2 ^ qubitCount e"
  proof -
    from a obtain e' where "Dispose_CPU junk junkP start len e = Some e'"
      "qubitCount e' = qubitCount e - len"
      using Dispose_CPU_part [of len start e junk junkP] by blast
    moreover have "1 \<le> qubitCount e - len" using a by auto
    ultimately show ?thesis by simp
  qed
  show "Dispose C start (qubitCount h) h
       = h\<lparr>qubitCount := 1, maxQPower := 2, stabilizer := Some (QStabilizer_new C 1 0),
            engine := None, shards := map (\<lambda>_. None) (shards h)\<rparr>"
    by (rule Dispose_all)
  show "Dispose_perm C start (qubitCount h) perm h
       = h\<lparr>qubitCount := 1, maxQPower := 2, stabilizer := Some (QStabilizer_new C 1 0),
            engine := None, shards := map (\<lambda>_. None) (shards h)\<rparr>"
    by (rule Dispose_perm_all)
  show "fst (Decompose C start dest h)
            = h\<lparr>qubitCount := 1, maxQPower := 2, stabilizer := Some (QStabilizer_new C 1 0),
                 engine := None, shards := map (\<lambda>_. None) (shards h)\<rparr>"
    if "qubitCount dest = qubitCount h"
    using that by (rule Decompose_all)
  show "1 \<le> qubitCount (Dispose C start len h)" if "len \<le> qubitCount h"
    using that by (auto simp: qubitCount_Dispose bitLenInt_minus_def)
  show "1 \<le> qubitCount (Dispose_perm C start len perm h)" if "len \<le> qubitCount h"
    using that by (auto simp: qubitCount_Dispose bitLenInt_minus_def)
qed
theorem whole_register_leaves_one_qubit_witness:
  "Dispose_CPU (\<lambda>n. 3) (\<lambda>n. 0) 0 2
     \<lparr>qubitCount = 2, maxQPower = 4, runningNorm = 1, stateVec = [1, 0, 0, 0]\<rparr>
     = Some \<lparr>qubitCount = 1, maxQPower = 2, runningNorm = 1, stateVec = [3, 3]\<rparr>
   \<and> (\<exists>e'. Dispose_CPU (\<lambda>n. 3) (\<lambda>n. 0) 0 1
              \<lparr>qubitCount = 2, maxQPower = 4, runningNorm = 1, stateVec = [1, 0, 0, 0]\<rparr> = Some e'
          \<and> qubitCount e' = 1)
   \<and> Dispose basis_collaborators 0 2
        \<lparr>qubitCount = 2, maxQPower = 4, stabilizer = None, engine = Some 1,
         shards = [None, None], shardsEigenZ = [False, False]\<rparr>
      = \<lparr>qubitCount = 1, maxQPower = 2, stabilizer = Some 0, engine = None,
         shards = [None, None], shardsEigenZ = [False, False]\<rparr>
   \<and> fst (Decompose basis_collaborators 0
        \<lparr>qubitCount = 2, maxQPower = 4, stabilizer = Some 0, engine = None,
         shards = [None, None], shardsEigenZ = [False, False]\<rparr>
        \<lparr>qubitCount = 2, maxQPower = 4, stabilizer = None, engine = Some 1,
         shards = [None, None], shardsEigenZ = [False, False]\<rparr>)
      = \<lparr>qubitCount = 1, maxQPower = 2, stabilizer = Some 0, engine = None,
         shards = [None, None], shardsEigenZ = [False, False]\<rparr>
   \<and> 1 \<le> qubitCount (Dispose basis_collaborators 0 1
        \<lparr>qubitCount = 2, maxQPower = 4, stabilizer = None, engine = Some 1,
         shards = [None, None], shardsEigenZ = [False, False]\<rparr>)"
proof -
  let ?e = "\<lparr>qubitCount = 2, maxQPower = 4, runningNorm = 1, stateVec = [1, 0, 0, 0]\<rparr> :: QEngineCPU"
  let ?h = "\<lparr>qubitCount = 2, maxQPower = 4, stabilizer = None, engine = Some 1,
             shards = [None, None], shardsEigenZ = [False, False]\<rparr> :: (nat, nat) QStabilizerHybrid"
  let ?d = "\<lparr>qubitCount = 2, maxQPower = 4, stabilizer = Some 0, engine = None,
             shards = [None, None], shardsEigenZ = [False, False]\<rparr> :: (nat, nat) QStabilizerHybrid"
  let ?r = "\<lparr>qubitCount = 1, maxQPower = 2, stabilizer = Some 0, engine = None,
             shards = [None, None], shardsEigenZ = [False, False]\<rparr> :: (nat, nat) QStabilizerHybrid"
  note t = whole_register_leaves_one_qubit
             [where e = ?e and start = 0 and junk = "\<lambda>n. 3" and junkP = "\<lambda>n. 0" and len = 1
                and C = basis_collaborators and h = ?h and dest = ?d and perm = 0]
  have he: "0 < qubitCount ?e \<and> qubitCount ?e \<le> 30 \<and> (0::nat) \<le> 30
            \<and> maxQPower ?e = 2 ^ qubitCount ?e"
    by simp
  have hp: "0 < (1::nat) \<and> 0 + 1 \<le> qubitCount ?e \<and> 1 < qubitCount ?e \<and> qubitCount ?e \<le> 30
            \<and> maxQPower ?e = 2 ^ qubitCount ?e"
    by simp
  have hd: "qubitCount ?d = qubitCount ?h" "1 \<le> qubitCount ?h" by simp_all
  have r: "?h\<lparr>qubitCount := 1, maxQPower := 2,
               stabilizer := Some (QStabilizer_new basis_collaborators 1 0),
               engine := None, shards := map (\<lambda>_. None) (shards ?h)\<rparr> = ?r"
    by (simp add: basis_collaborators_def)
  from t he have "Dispose_CPU (\<lambda>n. 3) (\<lambda>n. 0) 0 (qubitCount ?e) ?e
      = Some \<lparr>qubitCount = 1, maxQPower = 2, runningNorm = 1, stateVec = [3, 3]\<rparr>"
    by blast
  then have 1: "Dispose_CPU (\<lambda>n. 3) (\<lambda>n. 0) 0 2 ?e
      = Some \<lparr>qubitCount = 1, maxQPower = 2, runningNorm = 1, stateVec = [3, 3]\<rparr>"
    by simp
  from t hp have "\<exists>e'. Dispose_CPU (\<lambda>n. 3) (\<lambda>n. 0) 0 1 ?e = Some e'
                \<and> qubitCount e' = qubitCount ?e - 1 \<and> 1 \<le> qubitCount e'"
    by blast
  then have 2: "\<exists>e'. Dispose_CPU (\<lambda>n. 3) (\<lambda>n. 0) 0 1 ?e = Some e' \<and> qubitCount e' = 1"
    by auto
  from t have "Dispose basis_collaborators 0 (qubitCount ?h) ?h
      = ?h\<lparr>qubitCount := 1, maxQPower := 2,
             stabilizer := Some (QStabilizer_new basis_collaborators 1 0),
             engine := None, shards := map (\<lambda>_. None) (shards ?h)\<rparr>"
    by blast
  then have 3: "Dispose basis_collaborators 0 2 ?h = ?r"
    unfolding r by simp
  from t hd(1) have "fst (Decompose basis_collaborators 0 ?d ?h)
      = ?h\<lparr>qubitCount := 1, maxQPower := 2,
             stabilizer := Some (QStabilizer_new basis_collaborators 1 0),
             engine := None, shards := map (\<lambda>_. None) (shards ?h)\<rparr>"
    by blast
  then have 4: "fst (Decompose basis_collaborators 0 ?d ?h) = ?r"
    unfolding r .
  from t hd(2) have 5: "1 \<le> qubitCount (Dispose basis_collaborators 0 1 ?h)"
    by blast
  from 1 2 3 4 5 show ?thesis by (intro conjI)
qed

end
